theory Spec2Isabelle
  imports Main "HOL-Library.Multiset"
begin

section \<open>Values\<close>

text \<open>
  Python values as far as the workflow core looks at them: \<open>None\<close>, the sentinel
  \<open>UNDEFINED\<close>, the values that JSON decodes to, an object with an identity and with or
  without a callable \<open>close\<close> attribute, and a \<open>ValueCache\<close> object (which has
  \<open>close\<close>).
\<close>

datatype pyval =
    PyNone
  | UNDEFINED
  | PyBool bool
  | PyInt int
  | PyStr string
  | PyList "pyval list"
  | PyDict "(string \<times> pyval) list"
  | PyObj nat bool
  | PyCache nat

text \<open>
  The operator \<open>is\<close>: object identity. \<open>PyObj i c\<close> is the object with identity \<open>i\<close>,
  \<open>PyCache i\<close> the \<open>ValueCache\<close> object with identity \<open>i\<close>.
\<close>

fun py_is :: "pyval \<Rightarrow> pyval \<Rightarrow> bool" where
  "py_is (PyObj i _) (PyObj j _) = (i = j)"
| "py_is (PyObj _ _) _ = False"
| "py_is _ (PyObj _ _) = False"
| "py_is x y = (x = y)"

text \<open>\<open>hasattr(value, 'close')\<close>\<close>

fun has_close :: "pyval \<Rightarrow> bool" where
  "has_close (PyObj _ c) = c"
| "has_close (PyCache _) = True"
| "has_close _ = False"

text \<open>
  The exceptions. All but the first three are \<open>ValueError\<close> in the source, told apart by
  their message: \<open>UnknownNode\<close> "... because node '%s' does not exist", \<open>UnknownPort\<close>
  "... because node '%s' has no input/output named '%s'", \<open>AmbiguousNode\<close> "... because it
  has %s named outputs", \<open>UnknownPortInScope\<close> "... does not exist in any scope",
  \<open>SelfBinding\<close> "cannot connect '%s' with itself", \<open>IdMissing\<close> "id must be given",
  \<open>StepExists\<close> "step '%s' already exists", \<open>NotInList\<close> the error of \<open>list.index\<close>,
  \<open>InvalidEncoding\<close> the decoding errors of \<open>NodePort.from_json\<close>.
\<close>

datatype py_error =
    KeyError string
  | AttributeError
  | RecursionError
  | UnknownNode
  | UnknownPort
  | AmbiguousNode
  | UnknownPortInScope
  | SelfBinding
  | IdMissing
  | StepExists
  | NotInList
  | InvalidEncoding
  | TypeError

section \<open>ValueCache\<close>

text \<open>
  \<open>ValueCache(dict)\<close>: the dict's own items, \<open>_id_infos\<close> (key to (id, update count))
  and \<open>_last_id\<close>. The methods mutate \<open>self\<close>; the model returns the new cache.
  \<open>closed\<close> is the trace of the calls \<open>value.close()\<close> that the methods of this cache
  have made so far, in call order.
\<close>

record value_cache =
  items :: "string \<rightharpoonup> pyval"
  id_infos :: "string \<rightharpoonup> nat \<times> nat"
  last_id :: nat
  closed :: "pyval list"

definition new_ValueCache :: value_cache where
  "new_ValueCache = \<lparr>items = Map.empty, id_infos = Map.empty, last_id = 0, closed = []\<rparr>"

text \<open>\<open>dict.get(key)\<close>: \<open>None\<close> for a missing key.\<close>

definition dict_get :: "value_cache \<Rightarrow> string \<Rightarrow> pyval" where
  "dict_get c key = (case items c key of None \<Rightarrow> PyNone | Some v \<Rightarrow> v)"

definition vc_set :: "value_cache \<Rightarrow> string \<Rightarrow> pyval \<Rightarrow> value_cache" where
  "vc_set c key v = c\<lparr>items := (items c)(key \<mapsto> v)\<rparr>"

definition vc_del :: "value_cache \<Rightarrow> string \<Rightarrow> value_cache" where
  "vc_del c key = c\<lparr>items := (items c)(key := None)\<rparr>"

text \<open>\<open>_close_value\<close>: an error raised by \<open>close\<close> is swallowed.\<close>

definition close_value :: "value_cache \<Rightarrow> pyval \<Rightarrow> value_cache" where
  "close_value c v =
     (if \<not> py_is v PyNone \<and> has_close v then c\<lparr>closed := closed c @ [v]\<rparr> else c)"

definition gen_id :: "value_cache \<Rightarrow> nat \<times> value_cache" where
  "gen_id c = (let new_id = last_id c + 1 in (new_id, c\<lparr>last_id := new_id\<rparr>))"

text \<open>\<open>__setitem__\<close>. A present \<open>id_info\<close> is a pair, which is truthy.\<close>

definition setitem :: "value_cache \<Rightarrow> string \<Rightarrow> pyval \<Rightarrow> value_cache" where
  "setitem c key v =
     (let old_value = dict_get c key;
          id_info = id_infos c key;
          c1 = vc_set c key v;
          c2 = (case id_info of
                  Some (i, n) \<Rightarrow> c1\<lparr>id_infos := (id_infos c1)(key \<mapsto> (i, n + 1))\<rparr>
                | None \<Rightarrow>
                    (let (i, c') = gen_id c1 in c'\<lparr>id_infos := (id_infos c')(key \<mapsto> (i, 0))\<rparr>))
      in if \<not> py_is old_value v then close_value c2 old_value else c2)"

definition get_id :: "value_cache \<Rightarrow> string \<Rightarrow> nat option" where
  "get_id c key = (case id_infos c key of None \<Rightarrow> None | Some id_info \<Rightarrow> Some (fst id_info))"

definition get_update_count :: "value_cache \<Rightarrow> string \<Rightarrow> nat option" where
  "get_update_count c key =
     (case id_infos c key of None \<Rightarrow> None | Some id_info \<Rightarrow> Some (snd id_info))"

text \<open>
  \<open>child(key)\<close>. \<open>fresh\<close> is the identity of the object that \<open>ValueCache()\<close> allocates
  when the derived key is missing. The method stores it with \<open>_set\<close>, not with
  \<open>__setitem__\<close>, and returns \<open>self[child_key]\<close>.
\<close>

definition child :: "value_cache \<Rightarrow> string \<Rightarrow> nat \<Rightarrow> pyval \<times> value_cache" where
  "child c key fresh =
     (let child_key = key @ ''._child'';
          c1 = (if child_key \<notin> dom (items c) then vc_set c child_key (PyCache fresh) else c)
      in (dict_get c1 child_key, c1))"

text \<open>
  \<open>rename_key\<close>. \<open>self[key]\<close> and \<open>self._id_infos[key]\<close> raise \<open>KeyError\<close> for a
  missing key.
\<close>

definition rename_key :: "value_cache \<Rightarrow> string \<Rightarrow> string \<Rightarrow> py_error + value_cache" where
  "rename_key c key new_key =
     (if key = new_key then Inr c
      else case items c key of
        None \<Rightarrow> Inl (KeyError key)
      | Some v \<Rightarrow>
         (let c1 = vc_set (vc_del c key) new_key v in
          case id_infos c1 key of
            None \<Rightarrow> Inl (KeyError key)
          | Some id_info \<Rightarrow>
             (let c2 = c1\<lparr>id_infos := ((id_infos c1)(key := None))(new_key \<mapsto> id_info)\<rparr>;
                  child_key = key @ ''._child''
              in case items c2 child_key of
                   None \<Rightarrow> Inr c2
                 | Some child_cache \<Rightarrow>
                     Inr (vc_set (vc_del c2 child_key) (new_key @ ''._child'') child_cache))))"

text \<open>Assigning a list of values to one key, one after the other.\<close>

fun setitems :: "value_cache \<Rightarrow> string \<Rightarrow> pyval list \<Rightarrow> value_cache" where
  "setitems c key [] = c"
| "setitems c key (v # vs) = setitems (setitem c key v) key vs"

text \<open>
  A cache built through the public methods only: a value assigned under \<open>a._child\<close>, one
  under \<open>a\<close>, then \<open>a\<close> renamed to \<open>b\<close>.
\<close>

definition cache_a_assigned :: value_cache where
  "cache_a_assigned =
     setitem (setitem new_ValueCache ''a._child'' (PyObj 7 False)) ''a'' (PyObj 8 False)"

definition cache_a_renamed :: value_cache where
  "cache_a_renamed =
     (case rename_key cache_a_assigned ''a'' ''b'' of Inr c \<Rightarrow> c | Inl _ \<Rightarrow> new_ValueCache)"

section \<open>Nodes and ports\<close>

type_synonym addr = nat

text \<open>
  A \<open>NodePort\<close> object is identified by its node, by the namespace it sits in and by its
  name: the code never replaces a port of a namespace by another object.
\<close>

datatype port_key = PortKey (port_node: addr) (port_is_output: bool) (port_name: string)

text \<open>
  \<open>_source_ref\<close> is a \<open>SourceRef\<close> named tuple when the \<open>source\<close> setter wrote it, and
  a plain pair when \<open>from_json\<close> wrote it. Unpacking works on both; the attributes
  \<open>node_id\<close> and \<open>port_name\<close> exist on the named tuple only.
\<close>

datatype source_ref =
    SourceRef "string option" "string option"
  | PlainPair "string option" "string option"

fun ref_node_id :: "source_ref \<Rightarrow> string option" where
  "ref_node_id (SourceRef n p) = n"
| "ref_node_id (PlainPair n p) = n"

fun ref_port_name :: "source_ref \<Rightarrow> string option" where
  "ref_port_name (SourceRef n p) = p"
| "ref_port_name (PlainPair n p) = p"

text \<open>The attribute \<open>.node_id\<close>.\<close>

fun attr_node_id :: "source_ref \<Rightarrow> py_error + string option" where
  "attr_node_id (SourceRef n p) = Inr n"
| "attr_node_id (PlainPair n p) = Inl AttributeError"

record node_port =
  source_ref :: "source_ref option"
  source :: "port_key option"
  port_value :: pyval

definition new_NodePort :: node_port where
  "new_NodePort = \<lparr>source_ref = None, source = None, port_value = UNDEFINED\<rparr>"

datatype node_kind = Workflow | OpStep | ExpressionStep | SubProcessStep | WorkflowStep | NoOpStep

text \<open>
  What the code reads of \<open>OpMetaInfo\<close> (\<open>cate.util.opmetainf\<close>): the qualified name, the
  ordered input and output property maps, and the flags.
\<close>

record op_meta_info =
  qualified_name :: string
  meta_inputs :: "(string \<times> (string \<times> pyval) list) list"
  meta_outputs :: "(string \<times> (string \<times> pyval) list) list"
  can_cache :: bool
  has_named_outputs :: bool

text \<open>
  A node object. \<open>inputs\<close> and \<open>outputs\<close> are the two \<open>Namespace\<close>s, in declaration
  order. \<open>steps\<close> and \<open>steps_dict\<close> are the \<open>_steps\<close> and \<open>_steps_dict\<close> of a
  \<open>Workflow\<close>, \<open>step_parent\<close> the \<open>_parent_node\<close> of a \<open>Step\<close>.
\<close>

record node =
  node_id :: string
  kind :: node_kind
  meta :: op_meta_info
  persistent :: bool
  inputs :: "(string \<times> node_port) list"
  outputs :: "(string \<times> node_port) list"
  step_parent :: "addr option"
  steps :: "addr list"
  steps_dict :: "string \<rightharpoonup> addr"

text \<open>The store: node objects by identity.\<close>

type_synonym heap = "addr \<Rightarrow> node"

definition namespace :: "node \<Rightarrow> bool \<Rightarrow> (string \<times> node_port) list" where
  "namespace n is_output = (if is_output then outputs n else inputs n)"

definition port_at :: "heap \<Rightarrow> port_key \<Rightarrow> node_port option" where
  "port_at h pk = map_of (namespace (h (port_node pk)) (port_is_output pk)) (port_name pk)"

fun ns_update :: "string \<Rightarrow> (node_port \<Rightarrow> node_port) \<Rightarrow> (string \<times> node_port) list
    \<Rightarrow> (string \<times> node_port) list" where
  "ns_update name f [] = []"
| "ns_update name f ((k, p) # ns) =
     (if k = name then (k, f p) # ns else (k, p) # ns_update name f ns)"

text \<open>Assigning the fields of a port object: the node that owns it changes in the store.\<close>

definition upd_port :: "heap \<Rightarrow> port_key \<Rightarrow> (node_port \<Rightarrow> node_port) \<Rightarrow> heap" where
  "upd_port h pk f =
     (let n = h (port_node pk) in
      h(port_node pk :=
          (if port_is_output pk then n\<lparr>outputs := ns_update (port_name pk) f (outputs n)\<rparr>
           else n\<lparr>inputs := ns_update (port_name pk) f (inputs n)\<rparr>)))"

text \<open>\<open>chain(self._outputs[:], self._inputs[:])\<close>\<close>

definition node_ports :: "heap \<Rightarrow> addr \<Rightarrow> port_key list" where
  "node_ports h a =
     map (\<lambda>(k, p). PortKey a True k) (outputs (h a)) @
     map (\<lambda>(k, p). PortKey a False k) (inputs (h a))"

text \<open>The \<open>value\<close> setter.\<close>

definition set_value :: "heap \<Rightarrow> port_key \<Rightarrow> pyval \<Rightarrow> heap" where
  "set_value h pk new_value =
     upd_port h pk (\<lambda>p. p\<lparr>port_value := new_value, source := None, source_ref := None\<rparr>)"

text \<open>The \<open>source\<close> setter.\<close>

definition set_source :: "heap \<Rightarrow> port_key \<Rightarrow> port_key option \<Rightarrow> py_error + heap" where
  "set_source h pk new_source =
     (if new_source = Some pk then Inl SelfBinding
      else Inr (upd_port h pk (\<lambda>p. p\<lparr>
             source := new_source,
             source_ref := (case new_source of
                              None \<Rightarrow> None
                            | Some s \<Rightarrow> Some (SourceRef (Some (node_id (h (port_node s))))
                                                         (Some (port_name s)))),
             port_value := UNDEFINED\<rparr>)))"

text \<open>
  \<open>Node.find_port\<close>; no subclass overrides it. The name may be \<open>None\<close>, which no
  namespace contains.
\<close>

definition find_port :: "heap \<Rightarrow> addr \<Rightarrow> string option \<Rightarrow> port_key option" where
  "find_port h a name =
     (case name of
        None \<Rightarrow> None
      | Some nm \<Rightarrow>
          if nm \<in> set (map fst (outputs (h a))) then Some (PortKey a True nm)
          else if nm \<in> set (map fst (inputs (h a))) then Some (PortKey a False nm)
          else None)"

text \<open>
  \<open>parent_node\<close>: \<open>None\<close> on \<open>Node\<close> and so on \<open>Workflow\<close>, \<open>_parent_node\<close> on
  \<open>Step\<close>. The only assignment of a node to \<open>_parent_node\<close> is \<open>new_step._parent_node =
  self\<close> in \<open>Workflow.add_step\<close>, so a parent is a \<open>Workflow\<close>.
\<close>

definition parent_node :: "heap \<Rightarrow> addr \<Rightarrow> addr option" where
  "parent_node h a =
     (if kind (h a) = Workflow then None
      else case step_parent (h a) of
             None \<Rightarrow> None
           | Some p \<Rightarrow> if kind (h p) = Workflow then Some p else None)"

function root_node :: "heap \<Rightarrow> addr \<Rightarrow> addr" where
  "root_node h a = (case parent_node h a of None \<Rightarrow> a | Some p \<Rightarrow> root_node h p)"
  by pat_completeness auto
termination
  by (relation "measure (\<lambda>(h, a). if kind (h a) = Workflow then 0 else 1)")
     (auto simp: parent_node_def split: if_splits option.splits)

text \<open>\<open>Node.find_node\<close>, which every \<open>Step\<close> inherits, and \<open>Workflow.find_node\<close>.\<close>

definition Node_find_node :: "heap \<Rightarrow> addr \<Rightarrow> string \<Rightarrow> addr option" where
  "Node_find_node h a node_id' = None"

fun first_found :: "('a \<Rightarrow> 'b option) \<Rightarrow> 'a list \<Rightarrow> 'b option" where
  "first_found f [] = None"
| "first_found f (x # xs) = (case f x of Some y \<Rightarrow> Some y | None \<Rightarrow> first_found f xs)"

definition find_node :: "heap \<Rightarrow> addr \<Rightarrow> string \<Rightarrow> addr option" where
  "find_node h a step_id =
     (if kind (h a) = Workflow then
        (case steps_dict (h a) step_id of
           Some step \<Rightarrow> Some step
         | None \<Rightarrow> first_found (\<lambda>step. Node_find_node h step step_id) (steps (h a)))
      else Node_find_node h a step_id)"

text \<open>Truth value of \<open>None\<close> or a string.\<close>

fun truthy :: "string option \<Rightarrow> bool" where
  "truthy None = False"
| "truthy (Some s) = (s \<noteq> [])"

text \<open>The loop of \<open>update_source\<close> over the scopes: this node, then its parents.\<close>

function find_port_in_scope :: "heap \<Rightarrow> addr \<Rightarrow> string option \<Rightarrow> port_key option" where
  "find_port_in_scope h a name =
     (case find_port h a name of
        Some node_port \<Rightarrow> Some node_port
      | None \<Rightarrow> (case parent_node h a of
                   None \<Rightarrow> None
                 | Some p \<Rightarrow> find_port_in_scope h p name))"
  by pat_completeness auto
termination
  by (relation "measure (\<lambda>(h, a, name). if kind (h a) = Workflow then 0 else 1)")
     (auto simp: parent_node_def split: if_splits option.splits)

text \<open>
  The node that \<open>update_source\<close> looks up for a truthy node id: the root node when it
  has that id, otherwise what the root's \<open>find_node\<close> finds.
\<close>

definition referenced_node :: "heap \<Rightarrow> addr \<Rightarrow> string \<Rightarrow> addr option" where
  "referenced_node h a other_node_id =
     (let root = root_node h a in
      if node_id (h root) = other_node_id then Some root
      else find_node h root other_node_id)"

text \<open>\<open>NodePort.update_source\<close>\<close>

definition update_source :: "heap \<Rightarrow> port_key \<Rightarrow> py_error + heap" where
  "update_source h pk =
     (case port_at h pk of
        None \<Rightarrow> Inr h
      | Some p \<Rightarrow>
     (case source_ref p of
        None \<Rightarrow> Inr h
      | Some r \<Rightarrow>
         (let other_node_id = ref_node_id r;
              other_name = ref_port_name r;
              other_node =
                (if truthy other_node_id
                 then referenced_node h (port_node pk) (the other_node_id) else None)
          in if truthy other_node_id \<and> truthy other_name then
               (case other_node of
                  Some n \<Rightarrow>
                    (case find_port h n other_name of
                       Some node_port \<Rightarrow> set_source h pk (Some node_port)
                     | None \<Rightarrow> Inl UnknownPort)
                | None \<Rightarrow> Inl UnknownNode)
             else if truthy other_node_id then
               (case other_node of
                  Some n \<Rightarrow>
                    (case outputs (h n) of
                       [(k, q)] \<Rightarrow> set_source h pk (Some (PortKey n True k))
                     | _ \<Rightarrow> Inl AmbiguousNode)
                | None \<Rightarrow> Inl UnknownNode)
             else if truthy other_name then
               (case find_port_in_scope h (port_node pk) other_name of
                  Some node_port \<Rightarrow> set_source h pk (Some node_port)
                | None \<Rightarrow> Inl UnknownPortInScope)
             else Inr h)))"

text \<open>The \<open>source\<close> of a port, and the \<open>source\<close> it has once \<open>update_source\<close> has run.\<close>

definition port_source :: "heap \<Rightarrow> port_key \<Rightarrow> port_key option" where
  "port_source h pk = (case port_at h pk of None \<Rightarrow> None | Some p \<Rightarrow> source p)"

definition source_after_update :: "heap \<Rightarrow> port_key \<Rightarrow> py_error + port_key option" where
  "source_after_update h pk =
     (case update_source h pk of Inl e \<Rightarrow> Inl e | Inr h' \<Rightarrow> Inr (port_source h' pk))"

subsection \<open>A workflow with unresolved references\<close>

definition no_meta :: op_meta_info where
  "no_meta = \<lparr>qualified_name = [], meta_inputs = [], meta_outputs = [],
     can_cache = False, has_named_outputs = False\<rparr>"

definition blank_node :: node where
  "blank_node = \<lparr>node_id = ''blank'', kind = NoOpStep, meta = no_meta, persistent = False,
     inputs = [], outputs = [], step_parent = None, steps = [], steps_dict = Map.empty\<rparr>"

definition unresolved :: "string option \<Rightarrow> string option \<Rightarrow> node_port" where
  "unresolved n p = new_NodePort\<lparr>source_ref := Some (PlainPair n p)\<rparr>"

text \<open>
  Workflow \<open>wf\<close> (input \<open>x\<close>, output \<open>x\<close>) with the no-op steps \<open>a\<close> and \<open>b\<close>, as
  \<open>Step.from_json_dict\<close> and \<open>add_step\<close> leave them before \<open>update_sources\<close>:
  \<open>wf.outputs.x\<close> refers to \<open>"b"\<close>, \<open>a.outputs.return\<close> to \<open>"a"\<close>, \<open>b.inputs.y\<close> to
  \<open>"wf.x"\<close> and \<open>b.inputs.z\<close> to \<open>"a"\<close>.
\<close>

definition wf_unresolved :: heap where
  "wf_unresolved = (\<lambda>a. blank_node)
     (0 := blank_node\<lparr>node_id := ''wf'', kind := Workflow,
            inputs := [(''x'', new_NodePort)],
            outputs := [(''x'', unresolved (Some ''b'') None)],
            steps := [1, 2], steps_dict := [''a'' \<mapsto> 1, ''b'' \<mapsto> 2]\<rparr>,
      1 := blank_node\<lparr>node_id := ''a'', step_parent := Some 0,
            inputs := [(''x'', new_NodePort)],
            outputs := [(''return'', unresolved (Some ''a'') None)]\<rparr>,
      2 := blank_node\<lparr>node_id := ''b'', step_parent := Some 0,
            inputs := [(''y'', unresolved (Some ''wf'') (Some ''x'')),
                       (''z'', unresolved (Some ''a'') None)],
            outputs := [(''return'', new_NodePort), (''other'', new_NodePort)]\<rparr>)"

section \<open>Renaming, adding and replacing steps\<close>

text \<open>A \<open>for\<close> loop over objects whose body may raise: the first error ends the loop.\<close>

fun for_each :: "(heap \<Rightarrow> 'a \<Rightarrow> py_error + heap) \<Rightarrow> 'a list \<Rightarrow> heap \<Rightarrow> py_error + heap" where
  "for_each body [] h = Inr h"
| "for_each body (x # xs) h =
     (case body h x of Inl e \<Rightarrow> Inl e | Inr h' \<Rightarrow> for_each body xs h')"



text \<open>\<open>NodePort.update_source_node_id\<close>\<close>

definition update_source_node_id :: "addr \<Rightarrow> string \<Rightarrow> heap \<Rightarrow> port_key \<Rightarrow> py_error + heap" where
  "update_source_node_id node old_node_id h pk =
     (case port_at h pk of
        None \<Rightarrow> Inr h
      | Some p \<Rightarrow>
     (case source_ref p of
        None \<Rightarrow> Inr h
      | Some r \<Rightarrow>
         (case attr_node_id r of
            Inl e \<Rightarrow> Inl e
          | Inr ref_id \<Rightarrow>
              if ref_id = Some old_node_id
              then set_source h pk (find_port h node (ref_port_name r))
              else Inr h)))"

text \<open>\<open>Node.update_sources_node_id\<close> and \<open>Workflow.update_sources_node_id\<close>.\<close>

definition Node_update_sources_node_id :: "addr \<Rightarrow> string \<Rightarrow> heap \<Rightarrow> addr \<Rightarrow> py_error + heap" where
  "Node_update_sources_node_id changed_node old_id h a =
     for_each (update_source_node_id changed_node old_id) (node_ports h a) h"

definition update_sources_node_id :: "heap \<Rightarrow> addr \<Rightarrow> addr \<Rightarrow> string \<Rightarrow> py_error + heap" where
  "update_sources_node_id h a changed_node old_id =
     (if kind (h a) = Workflow then
        (case Node_update_sources_node_id changed_node old_id h a of
           Inl e \<Rightarrow> Inl e
         | Inr h1 \<Rightarrow>
            (let w = h1 a;
                 h2 = (if old_id \<in> dom (steps_dict w)
                       then h1(a := w\<lparr>steps_dict :=
                              ((steps_dict w)(old_id := None))
                                (node_id (h1 changed_node) \<mapsto> changed_node)\<rparr>)
                       else h1)
             in for_each (Node_update_sources_node_id changed_node old_id) (steps (h2 a)) h2))
      else Node_update_sources_node_id changed_node old_id h a)"

text \<open>\<open>Node.set_id\<close>\<close>

definition set_id :: "heap \<Rightarrow> addr \<Rightarrow> string \<Rightarrow> py_error + heap" where
  "set_id h a new_id =
     (if new_id = [] then Inl IdMissing
      else let old_id = node_id (h a) in
        if new_id = old_id then Inr h
        else let h1 = h(a := (h a)\<lparr>node_id := new_id\<rparr>)
             in update_sources_node_id h1 (root_node h1 a) a old_id)"








text \<open>
  The ports that the renaming and the clean-up visit from a root node: its own, then those of
  its steps.
\<close>

definition tree_ports :: "heap \<Rightarrow> addr \<Rightarrow> port_key list" where
  "tree_ports h root =
     node_ports h root @
     (if kind (h root) = Workflow then concat (map (node_ports h) (steps (h root))) else [])"

text \<open>
  Two stores have the same shape when the nodes have the same ids, kinds, port names,
  parents and steps: they differ in the states of ports and in step lookups only.
\<close>

definition same_shape :: "heap \<Rightarrow> heap \<Rightarrow> bool" where
  "same_shape h h' \<longleftrightarrow>
     (\<forall>n. node_id (h' n) = node_id (h n) \<and> kind (h' n) = kind (h n) \<and>
          step_parent (h' n) = step_parent (h n) \<and> steps (h' n) = steps (h n) \<and>
          meta (h' n) = meta (h n) \<and>
          persistent (h' n) = persistent (h n) \<and>
          map fst (inputs (h' n)) = map fst (inputs (h n)) \<and>
          map fst (outputs (h' n)) = map fst (outputs (h n)))"

text \<open>
  What \<open>update_source_node_id\<close> makes of a port when the node \<open>a\<close> got the id \<open>new_id\<close>
  in place of \<open>old_id\<close>.
\<close>

definition renamed_port :: "heap \<Rightarrow> addr \<Rightarrow> string \<Rightarrow> string \<Rightarrow> node_port \<Rightarrow> node_port" where
  "renamed_port h a old_id new_id p =
     (case source_ref p of
        Some (SourceRef n m) \<Rightarrow>
          if n = Some old_id then
            p\<lparr>source := find_port h a m,
              source_ref := (case find_port h a m of
                               None \<Rightarrow> None
                             | Some s \<Rightarrow> Some (SourceRef (Some new_id) (Some (port_name s)))),
              port_value := UNDEFINED\<rparr>
          else p
      | _ \<Rightarrow> p)"

text \<open>
  A port state that lets \<open>update_source_node_id\<close> return: the reference is absent or a
  named tuple, and it does not lead the port to itself.
\<close>

definition renamable :: "heap \<Rightarrow> addr \<Rightarrow> string \<Rightarrow> port_key \<Rightarrow> node_port \<Rightarrow> bool" where
  "renamable h a old_id pk p =
     (case source_ref p of
        None \<Rightarrow> True
      | Some (SourceRef n m) \<Rightarrow> n = Some old_id \<longrightarrow> find_port h a m \<noteq> Some pk
      | Some (PlainPair n m) \<Rightarrow> False)"

text \<open>
  The two ways in which a port state can fail to be renamable: its reference is a plain pair,
  or it names the old id and the port name under which \<open>find_port\<close> finds the port itself,
  which the \<open>source\<close> setter refuses.
\<close>

definition named_ref :: "node_port \<Rightarrow> bool" where
  "named_ref p = (case source_ref p of Some (PlainPair n m) \<Rightarrow> False | _ \<Rightarrow> True)"

definition self_bound :: "heap \<Rightarrow> addr \<Rightarrow> string \<Rightarrow> port_key \<Rightarrow> node_port \<Rightarrow> bool" where
  "self_bound h a old_id pk p =
     (case source_ref p of
        Some (SourceRef n m) \<Rightarrow> n = Some old_id \<and> find_port h a m = Some pk
      | _ \<Rightarrow> False)"

definition rn_inv :: "heap \<Rightarrow> addr \<Rightarrow> string \<Rightarrow> string \<Rightarrow> heap \<Rightarrow> bool" where
  "rn_inv h a old_id new_id g \<longleftrightarrow> same_shape h g \<and>
     (\<forall>pk. port_at g pk = port_at h pk \<or>
           port_at g pk = map_option (renamed_port h a old_id new_id) (port_at h pk))"

definition source_after_set_id ::
    "heap \<Rightarrow> addr \<Rightarrow> string \<Rightarrow> port_key \<Rightarrow> py_error + port_key option" where
  "source_after_set_id h a new_id pk =
     (case set_id h a new_id of Inl e \<Rightarrow> Inl e | Inr h' \<Rightarrow> Inr (port_source h' pk))"

subsection \<open>A workflow with resolved references\<close>

definition bound :: "addr \<Rightarrow> bool \<Rightarrow> string \<Rightarrow> string \<Rightarrow> node_port" where
  "bound n is_output name nid =
     \<lparr>source_ref = Some (SourceRef (Some nid) (Some name)),
      source = Some (PortKey n is_output name), port_value = UNDEFINED\<rparr>"

text \<open>
  Workflow \<open>wf\<close> (input \<open>x\<close>, output \<open>y\<close> bound to \<open>b.return\<close>) with the no-op steps
  \<open>a\<close> (input \<open>x\<close> bound to \<open>wf.x\<close>; outputs \<open>x\<close> and \<open>return\<close>) and \<open>b\<close> (input \<open>u\<close>
  bound to \<open>a.return\<close>, input \<open>v\<close> bound to the input \<open>x\<close> of \<open>a\<close>; output \<open>return\<close>).
\<close>

definition wf_bound :: heap where
  "wf_bound = (\<lambda>a. blank_node)
     (0 := blank_node\<lparr>node_id := ''wf'', kind := Workflow,
            inputs := [(''x'', new_NodePort)],
            outputs := [(''y'', bound 2 True ''return'' ''b'')],
            steps := [1, 2], steps_dict := [''a'' \<mapsto> 1, ''b'' \<mapsto> 2]\<rparr>,
      1 := blank_node\<lparr>node_id := ''a'', step_parent := Some 0,
            inputs := [(''x'', bound 0 False ''x'' ''wf'')],
            outputs := [(''x'', new_NodePort), (''return'', new_NodePort)]\<rparr>,
      2 := blank_node\<lparr>node_id := ''b'', step_parent := Some 0,
            inputs := [(''u'', bound 1 True ''return'' ''a''), (''v'', bound 1 False ''x'' ''a'')],
            outputs := [(''return'', new_NodePort)]\<rparr>)"

text \<open>
  Workflow \<open>wf\<close> with the pass-through step \<open>a\<close>, whose output \<open>x\<close> is bound to its own
  input \<open>x\<close>.
\<close>

definition wf_pass_through :: heap where
  "wf_pass_through = (\<lambda>a. blank_node)
     (0 := blank_node\<lparr>node_id := ''wf'', kind := Workflow,
            steps := [1], steps_dict := [''a'' \<mapsto> 1]\<rparr>,
      1 := blank_node\<lparr>node_id := ''a'', step_parent := Some 0,
            inputs := [(''x'', new_NodePort)],
            outputs := [(''x'', bound 1 False ''x'' ''a'')]\<rparr>)"


subsection \<open>Workflows in which a step is replaced\<close>




section \<open>Execution order\<close>














subsection \<open>A diamond\<close>


subsection \<open>A cycle\<close>


subsection \<open>Finished workflows\<close>



section \<open>Invoking an operation step\<close>

text \<open>
  \<open>has_value\<close> and \<open>value\<close> of a port follow the chain of sources; on a cyclic chain
  the nested calls end in \<open>RecursionError\<close>, as for \<open>max_distance_to\<close>.
\<close>

fun has_value :: "nat \<Rightarrow> heap \<Rightarrow> port_key \<Rightarrow> py_error + bool" where
  "has_value 0 h pk = Inl RecursionError"
| "has_value (Suc limit) h pk =
     (case port_at h pk of
        None \<Rightarrow> Inl (KeyError (port_name pk))
      | Some p \<Rightarrow>
         (case source p of
            Some s \<Rightarrow> has_value limit h s
          | None \<Rightarrow> Inr (port_value p \<noteq> UNDEFINED)))"

fun get_value :: "nat \<Rightarrow> heap \<Rightarrow> port_key \<Rightarrow> py_error + pyval" where
  "get_value 0 h pk = Inl RecursionError"
| "get_value (Suc limit) h pk =
     (case port_at h pk of
        None \<Rightarrow> Inl (KeyError (port_name pk))
      | Some p \<Rightarrow>
         (case source p of
            Some s \<Rightarrow> get_value limit h s
          | None \<Rightarrow> Inr (if port_value p = UNDEFINED then PyNone else port_value p)))"

text \<open>The first loop of \<open>OpStepBase._invoke_impl\<close>: the values of the inputs that have one.\<close>

fun input_values_loop :: "nat \<Rightarrow> heap \<Rightarrow> port_key list \<Rightarrow> py_error + (string \<times> pyval) list" where
  "input_values_loop limit h [] = Inr []"
| "input_values_loop limit h (node_input # rest) =
     (case has_value limit h node_input of
        Inl e \<Rightarrow> Inl e
      | Inr hv \<Rightarrow>
         (case (if hv then map_sum id Some (get_value limit h node_input) else Inr None) of
            Inl e \<Rightarrow> Inl e
          | Inr v \<Rightarrow>
             (case input_values_loop limit h rest of
                Inl e \<Rightarrow> Inl e
              | Inr vs \<Rightarrow> Inr (case v of None \<Rightarrow> vs | Some x \<Rightarrow> (port_name node_input, x) # vs))))"

text \<open>
  The execution context as far as the step reads it: \<open>context.get('value_cache')\<close>. The
  cache object is shared with the caller, so the model returns its new state.
\<close>

record exec_context =
  ctx_value_cache :: "value_cache option"

text \<open>\<open>Node._get_value_cache\<close>\<close>

definition get_value_cache :: "node \<Rightarrow> exec_context \<Rightarrow> value_cache option" where
  "get_value_cache n ctx = (if can_cache (meta n) then ctx_value_cache ctx else None)"

text \<open>
  The state after an invocation: the store, the context's cache, and the trace of the calls
  of the operation (each with its keyword arguments).
\<close>

record run_state =
  run_heap :: heap
  run_cache :: "value_cache option"
  op_calls :: "(string \<times> pyval) list list"

text \<open>
  The middle of \<open>OpStepBase._invoke_impl\<close>: the cached value, or a call of the operation
  \<open>op\<close> whose result is stored. The result is \<open>return_value\<close>, with the new cache and
  trace. The cache is the one of the context when \<open>value_cache\<close> is not \<open>None\<close>.
\<close>

definition cached_or_called ::
    "((string \<times> pyval) list \<Rightarrow> py_error + pyval) \<Rightarrow> node \<Rightarrow> exec_context \<Rightarrow> (string \<times> pyval) list
      \<Rightarrow> (string \<times> pyval) list list
      \<Rightarrow> py_error + pyval \<times> value_cache option \<times> (string \<times> pyval) list list" where
  "cached_or_called op n ctx input_values calls =
     (let value_cache = get_value_cache n ctx;
          hit = (case value_cache of
                   None \<Rightarrow> None
                 | Some c \<Rightarrow>
                    (case items c (node_id n) of
                       None \<Rightarrow> None
                     | Some v \<Rightarrow> if \<not> py_is v UNDEFINED then Some v else None))
      in case hit of
           Some v \<Rightarrow> Inr (v, ctx_value_cache ctx, calls)
         | None \<Rightarrow>
            (case op input_values of
               Inl e \<Rightarrow> Inl e
             | Inr return_value \<Rightarrow>
                 Inr (return_value,
                      (case value_cache of
                         None \<Rightarrow> ctx_value_cache ctx
                       | Some c \<Rightarrow> Some (setitem c (node_id n) return_value)),
                      calls @ [input_values])))"

text \<open>The end of \<open>_invoke_impl\<close>: the return value goes to the output ports.\<close>

fun set_named_outputs :: "heap \<Rightarrow> addr \<Rightarrow> (string \<times> pyval) list \<Rightarrow> py_error + heap" where
  "set_named_outputs h a [] = Inr h"
| "set_named_outputs h a ((output_name, output_value) # rest) =
     (if output_name \<in> set (map fst (outputs (h a)))
      then set_named_outputs (set_value h (PortKey a True output_name) output_value) a rest
      else Inl (KeyError output_name))"

definition set_outputs :: "heap \<Rightarrow> addr \<Rightarrow> pyval \<Rightarrow> py_error + heap" where
  "set_outputs h a return_value =
     (if has_named_outputs (meta (h a)) then
        (case return_value of
           PyDict kvs \<Rightarrow> set_named_outputs h a kvs
         | _ \<Rightarrow> Inl AttributeError)
      else if ''return'' \<in> set (map fst (outputs (h a)))
           then Inr (set_value h (PortKey a True ''return'') return_value)
           else Inl (KeyError ''return''))"

text \<open>
  \<open>OpStepBase._invoke_impl\<close> of the step \<open>a\<close> with the operation \<open>op\<close>, in the store
  \<open>h\<close> and after the calls \<open>calls\<close>. \<open>set_context_values\<close> is what
  \<open>_set_context_values\<close> does to \<open>input_values\<close> for the given context; it evaluates
  expressions with \<open>safe_eval\<close>, which lives outside this module.
\<close>

definition invoke_impl ::
    "nat \<Rightarrow> ((string \<times> pyval) list \<Rightarrow> py_error + pyval)
      \<Rightarrow> ((string \<times> pyval) list \<Rightarrow> (string \<times> pyval) list)
      \<Rightarrow> addr \<Rightarrow> exec_context \<Rightarrow> heap \<Rightarrow> (string \<times> pyval) list list \<Rightarrow> py_error + run_state" where
  "invoke_impl limit op set_context_values a ctx h calls =
     (case input_values_loop limit h (map (\<lambda>(k, p). PortKey a False k) (inputs (h a))) of
        Inl e \<Rightarrow> Inl e
      | Inr vs \<Rightarrow>
         (case cached_or_called op (h a) ctx (set_context_values vs) calls of
            Inl e \<Rightarrow> Inl e
          | Inr (return_value, cache, calls') \<Rightarrow>
             (case set_outputs h a return_value of
                Inl e \<Rightarrow> Inl e
              | Inr h' \<Rightarrow> Inr \<lparr>run_heap = h', run_cache = cache, op_calls = calls'\<rparr>)))"

subsection \<open>An operation step with a cache\<close>

text \<open>
  Step \<open>double\<close> (object 1) with the input \<open>x\<close>, which holds 3, and the output
  \<open>return\<close>; its operation may be cached and doubles \<open>x\<close>.
\<close>

definition op_step :: heap where
  "op_step = (\<lambda>a. blank_node)
     (1 := blank_node\<lparr>node_id := ''double'', kind := OpStep,
            meta := no_meta\<lparr>qualified_name := ''double'', can_cache := True\<rparr>,
            inputs := [(''x'', new_NodePort\<lparr>port_value := PyInt 3\<rparr>)],
            outputs := [(''return'', new_NodePort)]\<rparr>)"

definition double_op :: "(string \<times> pyval) list \<Rightarrow> py_error + pyval" where
  "double_op input_values =
     (case map_of input_values ''x'' of
        Some (PyInt n) \<Rightarrow> Inr (PyInt (2 * n))
      | _ \<Rightarrow> Inl TypeError)"

section \<open>Decoding ports and steps from JSON\<close>














subsection \<open>A new no-op step and its JSON\<close>



section \<open>Properties of the value cache\<close>

lemmas vc_defs =
  get_id_def get_update_count_def setitem_def vc_set_def vc_del_def gen_id_def
  close_value_def dict_get_def

lemma setitem_existing:
  "id_infos c k = Some (i, n) \<Longrightarrow> id_infos (setitem c k v) = (id_infos c)(k \<mapsto> (i, n + 1))"
  by (simp add: vc_defs Let_def)

lemma setitem_new:
  "id_infos c k = None \<Longrightarrow> id_infos (setitem c k v) = (id_infos c)(k \<mapsto> (last_id c + 1, 0))"
  by (simp add: vc_defs Let_def)

lemma setitem_last_id:
  "last_id (setitem c k v) = (if id_infos c k = None then last_id c + 1 else last_id c)"
  by (auto simp add: vc_defs Let_def split: option.splits)

lemma setitem_closed:
  "closed (setitem c k v) =
     closed c @
     (if \<not> py_is (dict_get c k) v \<and> has_close (dict_get c k) then [dict_get c k] else [])"
  by (cases "dict_get c k") (auto simp add: vc_defs Let_def split: option.splits)

lemma setitems_id_infos:
  "id_infos c k = Some (i, n) \<Longrightarrow> id_infos (setitems c k vs) k = Some (i, n + length vs)"
  by (induction vs arbitrary: c n) (simp_all add: setitem_existing)

lemma rename_key_id_info:
  "rename_key c k k' = Inr c' \<Longrightarrow> id_infos c' k' = id_infos c k"
  by (auto simp: rename_key_def vc_defs Let_def split: if_splits option.splits)

text \<open>
  C4. A key that has an id keeps it over any number of assignments, and each assignment
  adds exactly one to its update count and leaves \<open>_last_id\<close> alone. An assignment calls
  \<open>close\<close> on the previous value exactly when that value is not the new one (and has a
  \<open>close\<close>). A key without an id gets the id \<open>_last_id + 1\<close> and the update count 0; in a
  new cache that id is 1, and where all ids are at most \<open>_last_id\<close> the new id is larger
  than every id in the cache and the bound holds again afterwards. A successful
  \<open>rename_key\<close> gives the new key the id and the update count of the old one.
\<close>

theorem value_cache_ids:
  "(get_id c k = Some i \<and> get_update_count c k = Some n \<longrightarrow>
      get_id (setitems c k vs) k = Some i \<and>
      get_update_count (setitems c k vs) k = Some (n + length vs) \<and>
      get_id (setitem c k v) k = Some i \<and>
      get_update_count (setitem c k v) k = Some (n + 1) \<and>
      last_id (setitem c k v) = last_id c) \<and>
   closed (setitem c k v) =
      closed c @
      (if \<not> py_is (dict_get c k) v \<and> has_close (dict_get c k) then [dict_get c k] else []) \<and>
   (get_id c k = None \<longrightarrow>
      get_id (setitem c k v) k = Some (last_id c + 1) \<and>
      get_update_count (setitem c k v) k = Some 0 \<and>
      last_id (setitem c k v) = last_id c + 1) \<and>
   get_id (setitem new_ValueCache k v) k = Some 1 \<and>
   ((\<forall>j m. get_id c j = Some m \<longrightarrow> m \<le> last_id c) \<longrightarrow>
      (\<forall>j m. get_id c j = Some m \<longrightarrow> m < last_id c + 1) \<and>
      (\<forall>j m. get_id (setitem c k v) j = Some m \<longrightarrow> m \<le> last_id (setitem c k v))) \<and>
   (rename_key c k k' = Inr c' \<longrightarrow>
      get_id c' k' = get_id c k \<and> get_update_count c' k' = get_update_count c k)"
proof -
  have existing: "get_id (setitems c k vs) k = Some i \<and>
      get_update_count (setitems c k vs) k = Some (n + length vs) \<and>
      get_id (setitem c k v) k = Some i \<and>
      get_update_count (setitem c k v) k = Some (n + 1) \<and>
      last_id (setitem c k v) = last_id c"
    if "get_id c k = Some i" "get_update_count c k = Some n"
  proof -
    from that have ii: "id_infos c k = Some (i, n)"
      by (auto simp: get_id_def get_update_count_def split: option.splits)
    show ?thesis
      using setitems_id_infos[OF ii, of vs] setitem_existing[OF ii, of v] ii
      by (simp add: get_id_def get_update_count_def setitem_last_id)
  qed
  have fresh: "get_id (setitem c k v) k = Some (last_id c + 1) \<and>
      get_update_count (setitem c k v) k = Some 0 \<and>
      last_id (setitem c k v) = last_id c + 1"
    if "get_id c k = None"
  proof -
    from that have ii: "id_infos c k = None"
      by (auto simp: get_id_def split: option.splits)
    show ?thesis
      using setitem_new[OF ii, of v] ii
      by (simp add: get_id_def get_update_count_def setitem_last_id)
  qed
  have first: "get_id (setitem new_ValueCache k v) k = Some 1"
    by (simp add: get_id_def setitem_new new_ValueCache_def)
  have bounded: "(\<forall>j m. get_id c j = Some m \<longrightarrow> m < last_id c + 1) \<and>
      (\<forall>j m. get_id (setitem c k v) j = Some m \<longrightarrow> m \<le> last_id (setitem c k v))"
    if b: "\<forall>j m. get_id c j = Some m \<longrightarrow> m \<le> last_id c"
  proof (cases "id_infos c k")
    case None
    then show ?thesis
      using b setitem_new[OF None, of v]
      by (fastforce simp: get_id_def setitem_last_id split: option.splits if_splits)
  next
    case (Some a)
    obtain i0 n0 where a: "a = (i0, n0)" by (cases a)
    show ?thesis
      using b setitem_existing[of c k i0 n0 v] Some a
      by (fastforce simp: get_id_def setitem_last_id split: option.splits if_splits)
  qed
  have rename: "get_id c' k' = get_id c k \<and> get_update_count c' k' = get_update_count c k"
    if "rename_key c k k' = Inr c'"
    using rename_key_id_info[OF that] by (simp add: get_id_def get_update_count_def)
  show ?thesis
    using existing fresh first bounded rename setitem_closed[of c k v] by blast
qed

lemma cache_a_renamed_eq: "rename_key cache_a_assigned ''a'' ''b'' = Inr cache_a_renamed"
  by (simp add: cache_a_renamed_def cache_a_assigned_def rename_key_def vc_defs
      new_ValueCache_def Let_def)

theorem value_cache_ids_witness:
  "get_id cache_a_assigned ''a'' = Some 2 \<and> get_update_count cache_a_assigned ''a'' = Some 0 \<and>
   get_id (setitems cache_a_assigned ''a'' [PyObj 3 True, PyNone, PyObj 4 False]) ''a'' = Some 2 \<and>
   get_update_count (setitems cache_a_assigned ''a'' [PyObj 3 True, PyNone, PyObj 4 False]) ''a''
     = Some 3 \<and>
   get_update_count (setitem cache_a_assigned ''a'' (PyObj 3 True)) ''a'' = Some 1 \<and>
   get_id cache_a_assigned ''c'' = None \<and>
   get_id (setitem cache_a_assigned ''c'' PyNone) ''c'' = Some 3 \<and>
   get_update_count (setitem cache_a_assigned ''c'' PyNone) ''c'' = Some 0 \<and>
   last_id (setitem cache_a_assigned ''c'' PyNone) = 3 \<and>
   get_id (setitem cache_a_assigned ''c'' PyNone) ''a._child'' = Some 1 \<and>
   (1::nat) \<le> last_id (setitem cache_a_assigned ''c'' PyNone) \<and>
   rename_key cache_a_assigned ''a'' ''b'' = Inr cache_a_renamed \<and>
   get_id cache_a_renamed ''b'' = Some 2 \<and> get_update_count cache_a_renamed ''b'' = Some 0"
proof -
  have id: "get_id cache_a_assigned ''a'' = Some 2"
    and cnt: "get_update_count cache_a_assigned ''a'' = Some 0"
    and new: "get_id cache_a_assigned ''c'' = None"
    and last: "last_id cache_a_assigned = 2"
    by (simp_all add: cache_a_assigned_def vc_defs new_ValueCache_def Let_def)
  have bound: "\<forall>j m. get_id cache_a_assigned j = Some m \<longrightarrow> m \<le> last_id cache_a_assigned"
    by (auto simp add: cache_a_assigned_def vc_defs new_ValueCache_def Let_def
        split: if_splits)
  have other: "get_id (setitem cache_a_assigned ''c'' PyNone) ''a._child'' = Some 1"
    by (simp add: cache_a_assigned_def vc_defs new_ValueCache_def Let_def)
  note t = value_cache_ids[of cache_a_assigned "''c''" 0 0 "[]" PyNone "''c''" cache_a_assigned]
  note u = value_cache_ids[of cache_a_assigned "''a''" 2 0
        "[PyObj 3 True, PyNone, PyObj 4 False]" "PyObj 3 True" "''b''" cache_a_renamed]
  from t have "(\<forall>j m. get_id cache_a_assigned j = Some m \<longrightarrow> m \<le> last_id cache_a_assigned) \<longrightarrow>
      (\<forall>j m. get_id cache_a_assigned j = Some m \<longrightarrow> m < last_id cache_a_assigned + 1) \<and>
      (\<forall>j m. get_id (setitem cache_a_assigned ''c'' PyNone) j = Some m
          \<longrightarrow> m \<le> last_id (setitem cache_a_assigned ''c'' PyNone))"
    by (elim conjE)
  then have "\<forall>j m. get_id (setitem cache_a_assigned ''c'' PyNone) j = Some m
          \<longrightarrow> m \<le> last_id (setitem cache_a_assigned ''c'' PyNone)"
    using bound by (rule mp [THEN conjunct2])
  then have le: "(1::nat) \<le> last_id (setitem cache_a_assigned ''c'' PyNone)"
    using other by (elim allE) (erule mp)
  from t have "get_id cache_a_assigned ''c'' = None \<longrightarrow>
      get_id (setitem cache_a_assigned ''c'' PyNone) ''c'' = Some (last_id cache_a_assigned + 1) \<and>
      get_update_count (setitem cache_a_assigned ''c'' PyNone) ''c'' = Some 0 \<and>
      last_id (setitem cache_a_assigned ''c'' PyNone) = last_id cache_a_assigned + 1"
    by (elim conjE)
  then have fresh:
      "get_id (setitem cache_a_assigned ''c'' PyNone) ''c'' = Some 3"
      "get_update_count (setitem cache_a_assigned ''c'' PyNone) ''c'' = Some 0"
      "last_id (setitem cache_a_assigned ''c'' PyNone) = 3"
    using new last by simp_all
  from u have "get_id cache_a_assigned ''a'' = Some 2 \<and>
      get_update_count cache_a_assigned ''a'' = Some 0 \<longrightarrow>
      get_id (setitems cache_a_assigned ''a'' [PyObj 3 True, PyNone, PyObj 4 False]) ''a''
        = Some 2 \<and>
      get_update_count (setitems cache_a_assigned ''a'' [PyObj 3 True, PyNone, PyObj 4 False]) ''a''
        = Some (0 + length [PyObj 3 True, PyNone, PyObj 4 False]) \<and>
      get_id (setitem cache_a_assigned ''a'' (PyObj 3 True)) ''a'' = Some 2 \<and>
      get_update_count (setitem cache_a_assigned ''a'' (PyObj 3 True)) ''a'' = Some (0 + 1) \<and>
      last_id (setitem cache_a_assigned ''a'' (PyObj 3 True)) = last_id cache_a_assigned"
    by (elim conjE)
  then have existing:
      "get_id (setitems cache_a_assigned ''a'' [PyObj 3 True, PyNone, PyObj 4 False]) ''a''
        = Some 2"
      "get_update_count (setitems cache_a_assigned ''a'' [PyObj 3 True, PyNone, PyObj 4 False]) ''a''
        = Some 3"
      "get_update_count (setitem cache_a_assigned ''a'' (PyObj 3 True)) ''a'' = Some 1"
    using id cnt by simp_all
  from u have "rename_key cache_a_assigned ''a'' ''b'' = Inr cache_a_renamed \<longrightarrow>
      get_id cache_a_renamed ''b'' = get_id cache_a_assigned ''a'' \<and>
      get_update_count cache_a_renamed ''b'' = get_update_count cache_a_assigned ''a''"
    by (elim conjE)
  then have renamed: "get_id cache_a_renamed ''b'' = Some 2"
      "get_update_count cache_a_renamed ''b'' = Some 0"
    using cache_a_renamed_eq id cnt by simp_all
  show ?thesis
    using id cnt existing new fresh other le cache_a_renamed_eq renamed
    by (intro conjI)
qed

text \<open>
  C10, as stated, fails: in \<open>cache_a_renamed\<close> the derived key \<open>a._child\<close> is missing from
  the dict, so \<open>child('a')\<close> creates a child cache, and yet \<open>get_id('a._child')\<close> is 1
  afterwards, the id given when a value was assigned under that key.
\<close>

theorem child_id_counterexample:
  "rename_key cache_a_assigned ''a'' ''b'' = Inr cache_a_renamed \<and>
   items cache_a_renamed ''a._child'' = None \<and>
   fst (child cache_a_renamed ''a'' 9) = PyCache 9 \<and>
   get_id (snd (child cache_a_renamed ''a'' 9)) ''a._child'' = Some 1 \<and>
   get_update_count (snd (child cache_a_renamed ''a'' 9)) ''a._child'' = Some 0"
  by (simp add: cache_a_renamed_def cache_a_assigned_def rename_key_def child_def vc_defs
      new_ValueCache_def Let_def)

text \<open>
  C10, amended. \<open>child(key)\<close> leaves \<open>_id_infos\<close> and \<open>_last_id\<close> as they are and calls
  no \<open>close\<close>: \<open>get_id\<close> and \<open>get_update_count\<close> of the derived key are what they were
  before the call, so \<open>None\<close> when the derived key had no id. Every other entry of the dict
  is unchanged; the derived key holds the value returned, which is the new cache when the
  key was missing and the value already there otherwise.
\<close>

theorem child_keeps_ids:
  "child c key fresh = (v, c') \<Longrightarrow>
     id_infos c' = id_infos c \<and> last_id c' = last_id c \<and> closed c' = closed c \<and>
     get_id c' (key @ ''._child'') = get_id c (key @ ''._child'') \<and>
     get_update_count c' (key @ ''._child'') = get_update_count c (key @ ''._child'') \<and>
     (get_id c (key @ ''._child'') = None \<longrightarrow>
        get_id c' (key @ ''._child'') = None \<and>
        get_update_count c' (key @ ''._child'') = None) \<and>
     (\<forall>k. k \<noteq> key @ ''._child'' \<longrightarrow> items c' k = items c k) \<and>
     items c' (key @ ''._child'') = Some v \<and>
     (items c (key @ ''._child'') = None \<longrightarrow> v = PyCache fresh) \<and>
     (\<forall>w. items c (key @ ''._child'') = Some w \<longrightarrow> v = w \<and> c' = c)"
  by (auto simp: child_def vc_defs Let_def split: if_splits option.splits)

theorem child_keeps_ids_witness:
  "child cache_a_assigned ''b'' 9 = (PyCache 9, vc_set cache_a_assigned ''b._child'' (PyCache 9)) \<and>
   get_id cache_a_assigned ''b._child'' = None \<and>
   get_id (vc_set cache_a_assigned ''b._child'' (PyCache 9)) ''b._child'' = None \<and>
   get_update_count (vc_set cache_a_assigned ''b._child'' (PyCache 9)) ''b._child'' = None \<and>
   items (vc_set cache_a_assigned ''b._child'' (PyCache 9)) ''a'' = items cache_a_assigned ''a'' \<and>
   closed (vc_set cache_a_assigned ''b._child'' (PyCache 9)) = closed cache_a_assigned"
proof -
  let ?c' = "vc_set cache_a_assigned ''b._child'' (PyCache 9)"
  have run: "child cache_a_assigned ''b'' 9 = (PyCache 9, ?c')"
    by (simp add: child_def cache_a_assigned_def vc_defs new_ValueCache_def Let_def)
  have noid: "get_id cache_a_assigned (''b'' @ ''._child'') = None"
    by (simp add: cache_a_assigned_def vc_defs new_ValueCache_def Let_def)
  have neq: "''a'' \<noteq> ''b'' @ ''._child''" by simp
  note k = child_keeps_ids[OF run]
  from k have cl: "closed ?c' = closed cache_a_assigned"
    by (elim conjE)
  from k have "get_id cache_a_assigned (''b'' @ ''._child'') = None \<longrightarrow>
        get_id ?c' (''b'' @ ''._child'') = None \<and>
        get_update_count ?c' (''b'' @ ''._child'') = None"
    by (elim conjE)
  with noid have ids: "get_id ?c' (''b'' @ ''._child'') = None"
    "get_update_count ?c' (''b'' @ ''._child'') = None"
    by simp_all
  from k have "\<forall>k. k \<noteq> ''b'' @ ''._child'' \<longrightarrow> items ?c' k = items cache_a_assigned k"
    by (elim conjE)
  with neq have it: "items ?c' ''a'' = items cache_a_assigned ''a''"
    by (elim allE impE)
  have app: "''b'' @ ''._child'' = ''b._child''" by simp
  show ?thesis
    using run noid ids it cl unfolding app by (intro conjI)
qed

section \<open>Properties of source resolution\<close>

lemma map_of_ns_update:
  "map_of (ns_update name f ns) k
     = (if k = name then map_option f (map_of ns k) else map_of ns k)"
  by (induction ns) auto

lemma port_at_upd_port: "port_at (upd_port h pk f) pk = map_option f (port_at h pk)"
  by (cases pk) (auto simp: port_at_def upd_port_def namespace_def Let_def map_of_ns_update)

lemma port_source_set_source:
  "port_at h pk = Some p \<Longrightarrow> set_source h pk ns = Inr h' \<Longrightarrow> port_source h' pk = ns"
  by (auto simp: set_source_def port_source_def port_at_upd_port split: if_splits)

lemmas wf_unresolved_defs =
  wf_unresolved_def blank_node_def unresolved_def new_NodePort_def no_meta_def

lemmas resolve_defs =
  source_after_update_def update_source_def port_at_def namespace_def referenced_node_def
  parent_node_def find_node_def Node_find_node_def find_port_def set_source_def upd_port_def
  port_source_def Let_def

text \<open>
  C6. In \<open>wf_unresolved\<close> the input \<open>y\<close> of step \<open>b\<close> refers to \<open>wf.x\<close>, and \<open>wf\<close> is
  a workflow that has both an input and an output named \<open>x\<close>. \<open>update_source\<close> binds
  the port to the output \<open>x\<close> of the workflow: \<open>find_port\<close> searches the outputs first
  on every node.
\<close>

theorem workflow_port_lookup_outputs_first:
  "kind (wf_unresolved 0) = Workflow \<and>
   map fst (inputs (wf_unresolved 0)) = [''x''] \<and>
   map fst (outputs (wf_unresolved 0)) = [''x''] \<and>
   map_option source_ref (port_at wf_unresolved (PortKey 2 False ''y''))
     = Some (Some (PlainPair (Some ''wf'') (Some ''x''))) \<and>
   referenced_node wf_unresolved 2 ''wf'' = Some 0 \<and>
   find_port wf_unresolved 0 (Some ''x'') = Some (PortKey 0 True ''x'') \<and>
   source_after_update wf_unresolved (PortKey 2 False ''y'') = Inr (Some (PortKey 0 True ''x''))"
  by (simp add: wf_unresolved_defs resolve_defs)

text \<open>
  C8, as stated, fails: the output \<open>return\<close> of step \<open>a\<close> refers to \<open>"a"\<close>; the node
  \<open>a\<close> exists and has exactly one output, and \<open>update_source\<close> raises the error of a
  port connected with itself.
\<close>

theorem node_only_reference_counterexample:
  "map_option source_ref (port_at wf_unresolved (PortKey 1 True ''return''))
     = Some (Some (PlainPair (Some ''a'') None)) \<and>
   referenced_node wf_unresolved 1 ''a'' = Some 1 \<and>
   length (outputs (wf_unresolved 1)) = 1 \<and>
   update_source wf_unresolved (PortKey 1 True ''return'') = Inl SelfBinding"
  by (simp add: wf_unresolved_defs resolve_defs)

text \<open>
  C8, amended. For a port whose reference has a node id and no port name,
  \<open>update_source\<close> succeeds exactly when the referenced node exists, has exactly one output
  port, and that port is not the port being resolved; the output then is the port's source.
  When the sole output is the port itself the error is \<open>SelfBinding\<close>, when the number of
  outputs is not one it is \<open>AmbiguousNode\<close>, and when the node does not exist it is
  \<open>UnknownNode\<close>.
\<close>

theorem node_only_reference:
  assumes "port_at h pk = Some p" and "source_ref p = Some r"
    and "ref_node_id r = Some nid" and "nid \<noteq> []" and "\<not> truthy (ref_port_name r)"
  shows "((\<exists>h'. update_source h pk = Inr h') \<longleftrightarrow>
           (\<exists>n k q. referenced_node h (port_node pk) nid = Some n \<and> outputs (h n) = [(k, q)]
                 \<and> PortKey n True k \<noteq> pk)) \<and>
         (\<forall>n k q. referenced_node h (port_node pk) nid = Some n \<and> outputs (h n) = [(k, q)]
                 \<and> PortKey n True k \<noteq> pk \<longrightarrow>
              source_after_update h pk = Inr (Some (PortKey n True k))) \<and>
         (\<forall>n k q. referenced_node h (port_node pk) nid = Some n \<and> outputs (h n) = [(k, q)]
                 \<and> PortKey n True k = pk \<longrightarrow> update_source h pk = Inl SelfBinding) \<and>
         (\<forall>n. referenced_node h (port_node pk) nid = Some n \<and> length (outputs (h n)) \<noteq> 1 \<longrightarrow>
              update_source h pk = Inl AmbiguousNode) \<and>
         (referenced_node h (port_node pk) nid = None \<longrightarrow> update_source h pk = Inl UnknownNode)"
proof -
  have us: "update_source h pk =
     (case referenced_node h (port_node pk) nid of
        Some n \<Rightarrow> (case outputs (h n) of
                       [(k, q)] \<Rightarrow> set_source h pk (Some (PortKey n True k))
                     | _ \<Rightarrow> Inl AmbiguousNode)
      | None \<Rightarrow> Inl UnknownNode)"
    using assms by (simp add: update_source_def Let_def)
  show ?thesis
  proof (cases "referenced_node h (port_node pk) nid")
    case None
    then show ?thesis using us by simp
  next
    case (Some n)
    show ?thesis
    proof (cases "\<exists>k q. outputs (h n) = [(k, q)]")
      case True
      then obtain k q where o: "outputs (h n) = [(k, q)]" by blast
      show ?thesis
      proof (cases "PortKey n True k = pk")
        case True
        then show ?thesis using us Some o by (auto simp: set_source_def)
      next
        case False
        then obtain h' where h': "set_source h pk (Some (PortKey n True k)) = Inr h'"
          by (auto simp: set_source_def)
        have "port_source h' pk = Some (PortKey n True k)"
          using port_source_set_source[OF assms(1) h'] .
        then show ?thesis using us Some o False h'
          by (auto simp: source_after_update_def)
      qed
    next
      case False
      then have "update_source h pk = Inl AmbiguousNode"
        using us Some by (auto split: list.splits)
      moreover have "length (outputs (h n)) \<noteq> 1" using False
        by (cases "outputs (h n)") (auto)
      ultimately show ?thesis using Some False by auto
    qed
  qed
qed

theorem node_only_reference_witness:
  "port_at wf_unresolved (PortKey 2 False ''z'') = Some (unresolved (Some ''a'') None) \<and>
   referenced_node wf_unresolved 2 ''a'' = Some 1 \<and>
   outputs (wf_unresolved 1) = [(''return'', unresolved (Some ''a'') None)] \<and>
   (\<exists>h'. update_source wf_unresolved (PortKey 2 False ''z'') = Inr h') \<and>
   source_after_update wf_unresolved (PortKey 2 False ''z'') = Inr (Some (PortKey 1 True ''return'')) \<and>
   referenced_node wf_unresolved 0 ''b'' = Some 2 \<and>
   length (outputs (wf_unresolved 2)) = 2 \<and>
   update_source wf_unresolved (PortKey 0 True ''x'') = Inl AmbiguousNode"
proof -
  have p: "port_at wf_unresolved (PortKey 2 False ''z'') = Some (unresolved (Some ''a'') None)"
    by (simp add: wf_unresolved_defs port_at_def namespace_def)
  have r: "source_ref (unresolved (Some ''a'') None) = Some (PlainPair (Some ''a'') None)"
    by (simp add: unresolved_def)
  have n: "referenced_node wf_unresolved (port_node (PortKey 2 False ''z'')) ''a'' = Some 1"
    by (simp add: wf_unresolved_defs resolve_defs)
  have o: "outputs (wf_unresolved 1) = [(''return'', unresolved (Some ''a'') None)]"
    by (simp add: wf_unresolved_defs)
  note t = node_only_reference[OF p r, of "''a''"]
  have t': "((\<exists>h'. update_source wf_unresolved (PortKey 2 False ''z'') = Inr h') \<longleftrightarrow>
           (\<exists>n k q. referenced_node wf_unresolved (port_node (PortKey 2 False ''z'')) ''a'' = Some n
               \<and> outputs (wf_unresolved n) = [(k, q)] \<and> PortKey n True k \<noteq> PortKey 2 False ''z''))"
    and t'': "\<forall>n k q. referenced_node wf_unresolved (port_node (PortKey 2 False ''z'')) ''a'' = Some n
               \<and> outputs (wf_unresolved n) = [(k, q)] \<and> PortKey n True k \<noteq> PortKey 2 False ''z'' \<longrightarrow>
              source_after_update wf_unresolved (PortKey 2 False ''z'') = Inr (Some (PortKey n True k))"
    using t by simp_all
  have ex: "\<exists>n k q. referenced_node wf_unresolved (port_node (PortKey 2 False ''z'')) ''a'' = Some n
               \<and> outputs (wf_unresolved n) = [(k, q)] \<and> PortKey n True k \<noteq> PortKey 2 False ''z''"
    using n o by auto
  have ok: "\<exists>h'. update_source wf_unresolved (PortKey 2 False ''z'') = Inr h'"
    using t' ex by (rule iffD2)
  have src: "source_after_update wf_unresolved (PortKey 2 False ''z'')
      = Inr (Some (PortKey 1 True ''return''))"
    using t'' n o by auto
  have p0: "port_at wf_unresolved (PortKey 0 True ''x'') = Some (unresolved (Some ''b'') None)"
    by (simp add: wf_unresolved_defs port_at_def namespace_def)
  have r0: "source_ref (unresolved (Some ''b'') None) = Some (PlainPair (Some ''b'') None)"
    by (simp add: unresolved_def)
  have n0: "referenced_node wf_unresolved (port_node (PortKey 0 True ''x'')) ''b'' = Some 2"
    by (simp add: wf_unresolved_defs resolve_defs)
  have l0: "length (outputs (wf_unresolved 2)) = 2"
    by (simp add: wf_unresolved_defs)
  have "\<forall>n. referenced_node wf_unresolved (port_node (PortKey 0 True ''x'')) ''b'' = Some n \<and>
          length (outputs (wf_unresolved n)) \<noteq> 1 \<longrightarrow>
          update_source wf_unresolved (PortKey 0 True ''x'') = Inl AmbiguousNode"
    using node_only_reference[OF p0 r0, of "''b''"] by simp
  then have amb: "update_source wf_unresolved (PortKey 0 True ''x'') = Inl AmbiguousNode"
    using n0 l0 by auto
  show ?thesis
    using p n o ok src n0 l0 amb by simp
qed

section \<open>Properties of renaming\<close>

lemma map_fst_ns_update: "map fst (ns_update name f ns) = map fst ns"
  by (induction ns) auto

lemma same_shape_refl: "same_shape h h"
  by (simp add: same_shape_def)

lemma same_shape_trans: "same_shape h h' \<Longrightarrow> same_shape h' h'' \<Longrightarrow> same_shape h h''"
  by (simp add: same_shape_def)

lemma same_shape_upd_port: "same_shape h (upd_port h pk f)"
  by (simp add: same_shape_def upd_port_def Let_def map_fst_ns_update)

lemma port_at_upd_port_other: "pk' \<noteq> pk \<Longrightarrow> port_at (upd_port h pk f) pk' = port_at h pk'"
  by (cases pk; cases pk') (auto simp: port_at_def upd_port_def namespace_def Let_def map_of_ns_update)

lemma same_shape_find_port: "same_shape h h' \<Longrightarrow> find_port h' a nm = find_port h a nm"
  by (cases nm) (simp_all add: same_shape_def find_port_def)

lemma same_shape_node_ports: "same_shape h h' \<Longrightarrow> node_ports h' a = node_ports h a"
proof -
  assume s: "same_shape h h'"
  have *: "map (\<lambda>(k, p). PortKey a b k) xs = map (PortKey a b) (map fst xs)" for b and xs :: "(string \<times> node_port) list"
    by (induction xs) auto
  show ?thesis using s by (simp add: node_ports_def * same_shape_def)
qed


lemma root_node_eq: "root_node h a = (case parent_node h a of None \<Rightarrow> a | Some p \<Rightarrow> p)"
proof (cases "parent_node h a")
  case None
  then show ?thesis by simp
next
  case (Some p)
  then have "kind (h p) = Workflow"
    by (auto simp: parent_node_def split: if_splits option.splits)
  then have "parent_node h p = None" by (simp add: parent_node_def)
  then have "root_node h p = p" by simp
  with Some show ?thesis by simp
qed



lemma set_source_shape: "set_source h pk ns = Inr h' \<Longrightarrow> same_shape h h'"
  by (auto simp: set_source_def same_shape_upd_port split: if_splits)

lemma set_source_other: "set_source h pk ns = Inr h' \<Longrightarrow> pk' \<noteq> pk \<Longrightarrow> port_at h' pk' = port_at h pk'"
  by (auto simp: set_source_def port_at_upd_port_other split: if_splits)





lemma find_port_node: "find_port h a m = Some s \<Longrightarrow> port_node s = a"
  by (auto simp: find_port_def split: option.splits if_splits)

lemma find_port_name: "find_port h a m = Some s \<Longrightarrow> m = Some (port_name s)"
  by (auto simp: find_port_def split: option.splits if_splits)

lemma usni_shape: "update_source_node_id a old h pk = Inr h' \<Longrightarrow> same_shape h h'"
  by (auto simp: update_source_node_id_def same_shape_refl set_source_shape
      split: option.splits sum.splits if_splits)

lemma usni_other:
  "update_source_node_id a old h x = Inr h' \<Longrightarrow> x \<noteq> pk \<Longrightarrow> port_at h' pk = port_at h pk"
  by (auto simp: update_source_node_id_def set_source_other
      split: option.splits sum.splits if_splits)

lemma upd_port_steps_dict: "steps_dict (upd_port h pk f n) = steps_dict (h n)"
  by (simp add: upd_port_def Let_def)

lemma usni_steps_dict:
  "update_source_node_id a old h x = Inr h' \<Longrightarrow> steps_dict (h' n) = steps_dict (h n)"
  by (auto simp: update_source_node_id_def set_source_def upd_port_steps_dict
      split: option.splits sum.splits if_splits)

lemma usni_self:
  "update_source_node_id a old h pk = Inr h' \<Longrightarrow> node_id (h a) = new \<Longrightarrow>
     port_at h' pk = map_option (renamed_port h a old new) (port_at h pk)"
  apply (cases "port_at h pk")
   apply (simp add: update_source_node_id_def)
  subgoal for p
    apply (cases "source_ref p")
     apply (simp add: update_source_node_id_def renamed_port_def)
    subgoal for r
      apply (cases r)
       apply (auto simp: update_source_node_id_def renamed_port_def set_source_def port_at_upd_port
          find_port_node split: if_splits option.splits)
      done
    done
  done

lemma usni_succeeds:
  "port_at h pk = Some p \<Longrightarrow> renamable h a old pk p \<Longrightarrow>
     \<exists>h'. update_source_node_id a old h pk = Inr h'"
  by (auto simp: update_source_node_id_def renamable_def set_source_def
      split: option.splits source_ref.splits)

lemma usni_succeeds_none:
  "port_at h pk = None \<Longrightarrow> \<exists>h'. update_source_node_id a old h pk = Inr h'"
  by (simp add: update_source_node_id_def)

lemma renamed_renamable:
  "new \<noteq> old \<Longrightarrow> renamable h a old pk p \<Longrightarrow> renamable h a old pk (renamed_port h a old new p)"
  by (auto simp: renamable_def renamed_port_def split: option.splits source_ref.splits)

lemma renamed_idem:
  "new \<noteq> old \<Longrightarrow> renamed_port h a old new (renamed_port h a old new p) = renamed_port h a old new p"
  by (auto simp: renamed_port_def split: option.splits source_ref.splits)

lemma renamed_port_shape:
  "same_shape h g \<Longrightarrow> renamed_port g a old new = renamed_port h a old new"
  by (rule ext) (auto simp: renamed_port_def same_shape_find_port[of h g]
      split: option.splits source_ref.splits)

lemma renamable_shape:
  "same_shape h g \<Longrightarrow> renamable g a old pk p = renamable h a old pk p"
  by (auto simp: renamable_def same_shape_find_port[of h g]
      split: option.splits source_ref.splits)

lemma rn_ports:
  assumes new: "node_id (h a) = new" "new \<noteq> old"
    and pre: "\<forall>pk\<in>set pks. \<forall>p. port_at h pk = Some p \<longrightarrow> renamable h a old pk p"
    and inv: "rn_inv h a old new g"
  shows "\<exists>g'. for_each (update_source_node_id a old) pks g = Inr g' \<and> rn_inv h a old new g' \<and>
           (\<forall>pk\<in>set pks. port_at g' pk = map_option (renamed_port h a old new) (port_at h pk)) \<and>
           (\<forall>pk. pk \<notin> set pks \<longrightarrow> port_at g' pk = port_at g pk) \<and>
           (\<forall>n. steps_dict (g' n) = steps_dict (g n))"
  using pre inv
proof (induction pks arbitrary: g)
  case Nil
  then show ?case by simp
next
  case (Cons x xs)
  let ?R = "renamed_port h a old new"
  from Cons.prems(2) have sh: "same_shape h g"
    and alt: "port_at g x = port_at h x \<or> port_at g x = map_option ?R (port_at h x)"
    by (auto simp: rn_inv_def)
  have ok: "\<exists>g1. update_source_node_id a old g x = Inr g1"
  proof (cases "port_at h x")
    case None
    with alt have "port_at g x = None" by auto
    then show ?thesis by (rule usni_succeeds_none)
  next
    case (Some p)
    with Cons.prems(1) have rp: "renamable h a old x p" by auto
    from alt Some consider "port_at g x = Some p" | "port_at g x = Some (?R p)" by auto
    then show ?thesis
    proof cases
      case 1
      then show ?thesis using rp usni_succeeds[of g x p a old] renamable_shape[OF sh] by simp
    next
      case 2
      then show ?thesis
        using renamed_renamable[OF new(2) rp] usni_succeeds[of g x "?R p" a old]
          renamable_shape[OF sh] by simp
    qed
  qed
  then obtain g1 where g1: "update_source_node_id a old g x = Inr g1" by blast
  have sh1: "same_shape h g1" using sh usni_shape[OF g1] by (rule same_shape_trans)
  have ida: "node_id (g a) = new" using sh new by (simp add: same_shape_def)
  have x1: "port_at g1 x = map_option ?R (port_at h x)"
  proof -
    have "port_at g1 x = map_option ?R (port_at g x)"
      using usni_self[OF g1 ida] renamed_port_shape[OF sh] by simp
    with alt show ?thesis
      by (cases "port_at h x") (auto simp: renamed_idem[OF new(2)])
  qed
  have o1: "port_at g1 pk = port_at g pk" if "pk \<noteq> x" for pk
    using usni_other[OF g1, of pk] that by auto
  have inv1: "rn_inv h a old new g1"
    unfolding rn_inv_def
  proof (intro conjI allI)
    show "same_shape h g1" by (rule sh1)
    fix pk
    show "port_at g1 pk = port_at h pk \<or> port_at g1 pk = map_option ?R (port_at h pk)"
    proof (cases "pk = x")
      case True
      then show ?thesis using x1 by simp
    next
      case False
      then show ?thesis using o1 Cons.prems(2) by (auto simp: rn_inv_def)
    qed
  qed
  from Cons.prems(1) have pre': "\<forall>pk\<in>set xs. \<forall>p. port_at h pk = Some p \<longrightarrow> renamable h a old pk p"
    by simp
  from Cons.IH[OF pre' inv1] obtain g' where
    r: "for_each (update_source_node_id a old) xs g1 = Inr g'"
    and i': "rn_inv h a old new g'"
    and d: "\<forall>pk\<in>set xs. port_at g' pk = map_option ?R (port_at h pk)"
    and u: "\<forall>pk. pk \<notin> set xs \<longrightarrow> port_at g' pk = port_at g1 pk"
    and sd: "\<forall>n. steps_dict (g' n) = steps_dict (g1 n)"
    by blast
  have "for_each (update_source_node_id a old) (x # xs) g = Inr g'"
    using g1 r by simp
  moreover have "\<forall>pk\<in>set (x # xs). port_at g' pk = map_option ?R (port_at h pk)"
    using d u x1 by auto
  moreover have "\<forall>pk. pk \<notin> set (x # xs) \<longrightarrow> port_at g' pk = port_at g pk"
    using u o1 by auto
  moreover have "\<forall>n. steps_dict (g' n) = steps_dict (g n)"
    using sd usni_steps_dict[OF g1] by simp
  ultimately show ?case using i' by blast
qed


lemma rn_nodes:
  assumes new: "node_id (h a) = new" "new \<noteq> old"
    and pre: "\<forall>s\<in>set ss. \<forall>pk\<in>set (node_ports h s). \<forall>p. port_at h pk = Some p \<longrightarrow> renamable h a old pk p"
    and inv: "rn_inv h a old new g"
  shows "\<exists>g'. for_each (Node_update_sources_node_id a old) ss g = Inr g' \<and> rn_inv h a old new g' \<and>
           (\<forall>s\<in>set ss. \<forall>pk\<in>set (node_ports h s).
               port_at g' pk = map_option (renamed_port h a old new) (port_at h pk)) \<and>
           (\<forall>pk. (\<forall>s\<in>set ss. pk \<notin> set (node_ports h s)) \<longrightarrow> port_at g' pk = port_at g pk) \<and>
           (\<forall>n. steps_dict (g' n) = steps_dict (g n))"
  using pre inv
proof (induction ss arbitrary: g)
  case Nil
  then show ?case by simp
next
  case (Cons x xs)
  let ?R = "renamed_port h a old new"
  from Cons.prems(2) have sh: "same_shape h g" by (simp add: rn_inv_def)
  have np: "node_ports g x = node_ports h x" using sh by (rule same_shape_node_ports)
  from Cons.prems(1)
  have prex: "\<forall>pk\<in>set (node_ports h x). \<forall>p. port_at h pk = Some p \<longrightarrow> renamable h a old pk p"
    by simp
  from rn_ports[OF new prex Cons.prems(2)] obtain g1 where
    r1: "for_each (update_source_node_id a old) (node_ports h x) g = Inr g1"
    and i1: "rn_inv h a old new g1"
    and d1: "\<forall>pk\<in>set (node_ports h x). port_at g1 pk = map_option ?R (port_at h pk)"
    and u1: "\<forall>pk. pk \<notin> set (node_ports h x) \<longrightarrow> port_at g1 pk = port_at g pk"
    and s1: "\<forall>n. steps_dict (g1 n) = steps_dict (g n)"
    by blast
  have b1: "Node_update_sources_node_id a old g x = Inr g1"
    using r1 np by (simp add: Node_update_sources_node_id_def)
  from Cons.prems(1)
  have pre': "\<forall>s\<in>set xs. \<forall>pk\<in>set (node_ports h s). \<forall>p. port_at h pk = Some p \<longrightarrow> renamable h a old pk p"
    by simp
  from Cons.IH[OF pre' i1] obtain g' where
    r: "for_each (Node_update_sources_node_id a old) xs g1 = Inr g'"
    and i': "rn_inv h a old new g'"
    and d: "\<forall>s\<in>set xs. \<forall>pk\<in>set (node_ports h s). port_at g' pk = map_option ?R (port_at h pk)"
    and u: "\<forall>pk. (\<forall>s\<in>set xs. pk \<notin> set (node_ports h s)) \<longrightarrow> port_at g' pk = port_at g1 pk"
    and sd: "\<forall>n. steps_dict (g' n) = steps_dict (g1 n)"
    by blast
  have "for_each (Node_update_sources_node_id a old) (x # xs) g = Inr g'"
    using b1 r by simp
  moreover have "\<forall>s\<in>set (x # xs). \<forall>pk\<in>set (node_ports h s). port_at g' pk = map_option ?R (port_at h pk)"
  proof (intro ballI)
    fix s pk assume s: "s \<in> set (x # xs)" and pk: "pk \<in> set (node_ports h s)"
    show "port_at g' pk = map_option ?R (port_at h pk)"
    proof (cases "\<exists>t\<in>set xs. pk \<in> set (node_ports h t)")
      case True
      then show ?thesis using d by blast
    next
      case False
      then have "port_at g' pk = port_at g1 pk" using u by blast
      moreover from False s pk have "pk \<in> set (node_ports h x)" by auto
      ultimately show ?thesis using d1 by simp
    qed
  qed
  moreover have "\<forall>pk. (\<forall>s\<in>set (x # xs). pk \<notin> set (node_ports h s)) \<longrightarrow> port_at g' pk = port_at g pk"
    using u u1 by simp
  moreover have "\<forall>n. steps_dict (g' n) = steps_dict (g n)"
    using sd s1 by simp
  ultimately show ?case using i' by blast
qed


lemma set_id_empty: "set_id h a [] = Inl IdMissing"
  by (simp add: set_id_def)

lemma set_id_same: "node_id (h a) \<noteq> [] \<Longrightarrow> set_id h a (node_id (h a)) = Inr h"
  by (simp add: set_id_def)

lemma id_upd_facts:
  fixes h a new
  defines "h1 \<equiv> h(a := (h a)\<lparr>node_id := new\<rparr>)"
  shows "port_at h1 = port_at h" "find_port h1 = find_port h" "node_ports h1 = node_ports h"
    "parent_node h1 = parent_node h" "root_node h1 = root_node h" "tree_ports h1 = tree_ports h"
    "kind (h1 n) = kind (h n)" "steps (h1 n) = steps (h n)" "steps_dict (h1 n) = steps_dict (h n)"
    "node_id (h1 a) = new"
proof -
  show pa: "port_at h1 = port_at h"
    by (rule ext) (simp add: port_at_def h1_def namespace_def)
  show fp: "find_port h1 = find_port h"
    by (intro ext) (simp add: find_port_def h1_def split: option.splits)
  show np: "node_ports h1 = node_ports h"
    by (intro ext) (simp add: node_ports_def h1_def)
  show pn: "parent_node h1 = parent_node h"
    by (intro ext) (simp add: parent_node_def h1_def split: option.splits)
  show k: "kind (h1 n) = kind (h n)" and st: "steps (h1 n) = steps (h n)"
    and "steps_dict (h1 n) = steps_dict (h n)" and "node_id (h1 a) = new"
    by (simp_all add: h1_def)
  show "root_node h1 = root_node h"
    by (intro ext) (simp add: root_node_eq pn del: root_node.simps)
  show "tree_ports h1 = tree_ports h"
    unfolding tree_ports_def np by (intro ext) (simp add: h1_def)
qed

lemma root_not_workflow: "kind (h (root_node h a)) \<noteq> Workflow \<Longrightarrow> root_node h a = a"
  by (auto simp: root_node_eq parent_node_def simp del: root_node.simps split: option.splits if_splits)

lemma set_id_renames:
  "set_id h a [] = Inl IdMissing \<and>
   (node_id (h a) \<noteq> [] \<longrightarrow> set_id h a (node_id (h a)) = Inr h) \<and>
   (new_id \<noteq> [] \<and> new_id \<noteq> node_id (h a) \<and>
    (\<forall>pk\<in>set (tree_ports h (root_node h a)). \<forall>p. port_at h pk = Some p \<longrightarrow>
         renamable h a (node_id (h a)) pk p) \<longrightarrow>
    (\<exists>h'. set_id h a new_id = Inr h' \<and> node_id (h' a) = new_id \<and>
       (\<forall>pk\<in>set (tree_ports h (root_node h a)).
          port_at h' pk = map_option (renamed_port h a (node_id (h a)) new_id) (port_at h pk)) \<and>
       (kind (h (root_node h a)) = Workflow \<and>
        steps_dict (h (root_node h a)) (node_id (h a)) \<noteq> None \<longrightarrow>
          steps_dict (h' (root_node h a))
            = ((steps_dict (h (root_node h a)))(node_id (h a) := None))(new_id \<mapsto> a) \<and>
          find_node h' (root_node h a) new_id = Some a)))"
proof (intro conjI impI)
  show "set_id h a [] = Inl IdMissing" by (rule set_id_empty)
  show "set_id h a (node_id (h a)) = Inr h" if "node_id (h a) \<noteq> []"
    using that by (rule set_id_same)
next
  define old where "old = node_id (h a)"
  define h1 where "h1 = h(a := (h a)\<lparr>node_id := new_id\<rparr>)"
  define root where "root = root_node h a"
  let ?R = "renamed_port h a old new_id"
  assume asm: "new_id \<noteq> [] \<and> new_id \<noteq> node_id (h a) \<and>
    (\<forall>pk\<in>set (tree_ports h (root_node h a)). \<forall>p. port_at h pk = Some p \<longrightarrow>
         renamable h a (node_id (h a)) pk p)"
  then have ne: "new_id \<noteq> []" and neq: "new_id \<noteq> old"
    and pre: "\<forall>pk\<in>set (tree_ports h root). \<forall>p. port_at h pk = Some p \<longrightarrow> renamable h a old pk p"
    by (simp_all add: old_def root_def)
  note f = id_upd_facts[of h a new_id, folded h1_def]
  have R1: "renamed_port h1 a old new_id = ?R"
    unfolding renamed_port_def f ..
  have rb1: "renamable h1 a old pk p = renamable h a old pk p" for pk p
    unfolding renamable_def f ..
  have sid: "set_id h a new_id = update_sources_node_id h1 root a old"
    using ne neq by (simp add: set_id_def old_def h1_def[symmetric] Let_def f root_def
        del: root_node.simps)
  have inv1: "rn_inv h1 a old new_id h1"
    by (simp add: rn_inv_def same_shape_refl)
  have rootpre: "\<forall>pk\<in>set (node_ports h1 root). \<forall>p. port_at h1 pk = Some p \<longrightarrow> renamable h1 a old pk p"
    using pre by (simp add: f rb1 tree_ports_def)
  from rn_ports[OF f(10) neq rootpre inv1] obtain g1 where
    r1: "for_each (update_source_node_id a old) (node_ports h1 root) h1 = Inr g1"
    and i1: "rn_inv h1 a old new_id g1"
    and d1: "\<forall>pk\<in>set (node_ports h1 root). port_at g1 pk = map_option ?R (port_at h1 pk)"
    and u1: "\<forall>pk. pk \<notin> set (node_ports h1 root) \<longrightarrow> port_at g1 pk = port_at h1 pk"
    and s1: "\<forall>n. steps_dict (g1 n) = steps_dict (h1 n)"
    unfolding R1 by blast
  have n1: "Node_update_sources_node_id a old h1 root = Inr g1"
    using r1 by (simp add: Node_update_sources_node_id_def)
  have sh1: "same_shape h1 g1" using i1 by (simp add: rn_inv_def)
  have ida1: "node_id (g1 a) = new_id" using sh1 f(10) by (simp add: same_shape_def)
  show "\<exists>h'. set_id h a new_id = Inr h' \<and> node_id (h' a) = new_id \<and>
       (\<forall>pk\<in>set (tree_ports h (root_node h a)).
          port_at h' pk = map_option (renamed_port h a (node_id (h a)) new_id) (port_at h pk)) \<and>
       (kind (h (root_node h a)) = Workflow \<and>
        steps_dict (h (root_node h a)) (node_id (h a)) \<noteq> None \<longrightarrow>
          steps_dict (h' (root_node h a))
            = ((steps_dict (h (root_node h a)))(node_id (h a) := None))(new_id \<mapsto> a) \<and>
          find_node h' (root_node h a) new_id = Some a)"
    unfolding old_def[symmetric] root_def[symmetric]
  proof (cases "kind (h root) = Workflow")
    case False
    then have "set_id h a new_id = Inr g1"
      using sid n1 by (simp add: update_sources_node_id_def f)
    moreover have "\<forall>pk\<in>set (tree_ports h root). port_at g1 pk = map_option ?R (port_at h pk)"
      using d1 False by (simp add: tree_ports_def f)
    ultimately show "\<exists>h'. set_id h a new_id = Inr h' \<and> node_id (h' a) = new_id \<and>
       (\<forall>pk\<in>set (tree_ports h root). port_at h' pk = map_option ?R (port_at h pk)) \<and>
       (kind (h root) = Workflow \<and> steps_dict (h root) old \<noteq> None \<longrightarrow>
          steps_dict (h' root) = ((steps_dict (h root))(old := None))(new_id \<mapsto> a) \<and>
          find_node h' root new_id = Some a)"
      using ida1 False by simp
  next
    case True
    define D where "D = (if old \<in> dom (steps_dict (h root))
        then ((steps_dict (h root))(old := None))(new_id \<mapsto> a) else steps_dict (h root))"
    define h2 where "h2 = (if old \<in> dom (steps_dict (g1 root))
                       then g1(root := (g1 root)\<lparr>steps_dict :=
                              ((steps_dict (g1 root))(old := None))
                                (node_id (g1 a) \<mapsto> a)\<rparr>)
                       else g1)"
    have sd1: "steps_dict (g1 root) = steps_dict (h root)" using s1 f by simp
    have p2: "port_at h2 = port_at g1"
      by (rule ext) (simp add: h2_def port_at_def namespace_def)
    have sh12: "same_shape g1 h2"
      by (simp add: h2_def same_shape_def)
    have sh2: "same_shape h1 h2" using sh1 sh12 by (rule same_shape_trans)
    have inv2: "rn_inv h1 a old new_id h2"
      using i1 sh2 by (simp add: rn_inv_def p2)
    have d2: "steps_dict (h2 root) = D"
      by (simp add: h2_def D_def sd1 ida1)
    have st2: "steps (h2 root) = steps (h root)"
      using sh2 f by (simp add: same_shape_def)
    have steppre: "\<forall>s\<in>set (steps (h root)). \<forall>pk\<in>set (node_ports h1 s). \<forall>p.
        port_at h1 pk = Some p \<longrightarrow> renamable h1 a old pk p"
      using pre True by (auto simp add: f rb1 tree_ports_def)
    from rn_nodes[OF f(10) neq steppre inv2] obtain g' where
      r: "for_each (Node_update_sources_node_id a old) (steps (h root)) h2 = Inr g'"
      and i': "rn_inv h1 a old new_id g'"
      and d: "\<forall>s\<in>set (steps (h root)). \<forall>pk\<in>set (node_ports h1 s).
               port_at g' pk = map_option ?R (port_at h1 pk)"
      and u: "\<forall>pk. (\<forall>s\<in>set (steps (h root)). pk \<notin> set (node_ports h1 s)) \<longrightarrow> port_at g' pk = port_at h2 pk"
      and sd: "\<forall>n. steps_dict (g' n) = steps_dict (h2 n)"
      unfolding R1 by blast
    have res: "set_id h a new_id = Inr g'"
      using sid n1 r True st2
      by (simp add: update_sources_node_id_def f h2_def[symmetric] Let_def)
    have ida: "node_id (g' a) = new_id"
      using i' f(10) by (simp add: rn_inv_def same_shape_def)
    have ports: "\<forall>pk\<in>set (tree_ports h root). port_at g' pk = map_option ?R (port_at h pk)"
    proof
      fix pk assume pk: "pk \<in> set (tree_ports h root)"
      show "port_at g' pk = map_option ?R (port_at h pk)"
      proof (cases "\<exists>s\<in>set (steps (h root)). pk \<in> set (node_ports h1 s)")
        case True
        then show ?thesis using d f by auto
      next
        case False
        then have "port_at g' pk = port_at g1 pk" using u p2 by auto
        moreover from False pk \<open>kind (h root) = Workflow\<close> have "pk \<in> set (node_ports h1 root)"
          by (auto simp: tree_ports_def f)
        ultimately show ?thesis using d1 f by simp
      qed
    qed
    have dict: "steps_dict (g' root) = ((steps_dict (h root))(old := None))(new_id \<mapsto> a) \<and>
          find_node g' root new_id = Some a" if "steps_dict (h root) old \<noteq> None"
    proof -
      from that have "D = ((steps_dict (h root))(old := None))(new_id \<mapsto> a)"
        by (auto simp: D_def)
      then have 1: "steps_dict (g' root) = ((steps_dict (h root))(old := None))(new_id \<mapsto> a)"
        using sd d2 by simp
      have "kind (g' root) = Workflow"
        using i' True f by (simp add: rn_inv_def same_shape_def)
      then have "find_node g' root new_id = Some a"
        using 1 by (simp add: find_node_def)
      with 1 show ?thesis by simp
    qed
    show "\<exists>h'. set_id h a new_id = Inr h' \<and> node_id (h' a) = new_id \<and>
       (\<forall>pk\<in>set (tree_ports h root). port_at h' pk = map_option ?R (port_at h pk)) \<and>
       (kind (h root) = Workflow \<and> steps_dict (h root) old \<noteq> None \<longrightarrow>
          steps_dict (h' root) = ((steps_dict (h root))(old := None))(new_id \<mapsto> a) \<and>
          find_node h' root new_id = Some a)"
      using res ida ports dict by blast
  qed
qed


lemma renamable_iff:
  "renamable h a old pk p \<longleftrightarrow> named_ref p \<and> \<not> self_bound h a old pk p"
  by (auto simp: renamable_def named_ref_def self_bound_def split: option.splits source_ref.splits)

lemma usni_raises:
  "port_at g pk = Some p \<Longrightarrow> self_bound g a old pk p \<Longrightarrow>
     update_source_node_id a old g pk = Inl SelfBinding"
  by (auto simp: update_source_node_id_def self_bound_def set_source_def
      split: option.splits source_ref.splits)

lemma self_bound_shape:
  "same_shape h g \<Longrightarrow> self_bound g a old pk p = self_bound h a old pk p"
  by (auto simp: self_bound_def same_shape_find_port[of h g]
      split: option.splits source_ref.splits)

lemma rn_raise:
  assumes new: "node_id (h a) = new" "new \<noteq> old"
    and named: "\<forall>pk\<in>set pks. \<forall>p. port_at h pk = Some p \<longrightarrow> named_ref p"
    and bad: "\<exists>pk\<in>set pks. \<exists>p. port_at h pk = Some p \<and> self_bound h a old pk p"
    and inv: "rn_inv h a old new g"
    and keep: "\<forall>pk p. port_at h pk = Some p \<and> self_bound h a old pk p \<longrightarrow> port_at g pk = Some p"
  shows "for_each (update_source_node_id a old) pks g = Inl SelfBinding"
  using named bad inv keep
proof (induction pks arbitrary: g)
  case Nil
  then show ?case by simp
next
  case (Cons x xs)
  from Cons.prems(3) have sh: "same_shape h g" by (simp add: rn_inv_def)
  show ?case
  proof (cases "\<exists>p. port_at h x = Some p \<and> self_bound h a old x p")
    case True
    then obtain p where p: "port_at h x = Some p" "self_bound h a old x p" by blast
    with Cons.prems(4) have "port_at g x = Some p" by blast
    moreover have "self_bound g a old x p" using p(2) self_bound_shape[OF sh] by simp
    ultimately have "update_source_node_id a old g x = Inl SelfBinding" by (rule usni_raises)
    then show ?thesis by simp
  next
    case False
    with Cons.prems(1)
    have prex: "\<forall>pk\<in>set [x]. \<forall>p. port_at h pk = Some p \<longrightarrow> renamable h a old pk p"
      by (auto simp: renamable_iff)
    from rn_ports[OF new prex Cons.prems(3)] obtain g1 where
      r1: "for_each (update_source_node_id a old) [x] g = Inr g1"
      and i1: "rn_inv h a old new g1"
      and u1: "\<forall>pk. pk \<notin> set [x] \<longrightarrow> port_at g1 pk = port_at g pk"
      by blast
    from r1 have b1: "update_source_node_id a old g x = Inr g1"
      by (simp split: sum.splits)
    have keep1: "\<forall>pk p. port_at h pk = Some p \<and> self_bound h a old pk p \<longrightarrow> port_at g1 pk = Some p"
    proof (intro allI impI)
      fix pk p assume a: "port_at h pk = Some p \<and> self_bound h a old pk p"
      with False have "pk \<noteq> x" by auto
      then have "port_at g1 pk = port_at g pk" using u1 by simp
      with a Cons.prems(4) show "port_at g1 pk = Some p" by simp
    qed
    from Cons.prems(1) have named': "\<forall>pk\<in>set xs. \<forall>p. port_at h pk = Some p \<longrightarrow> named_ref p"
      by simp
    from Cons.prems(2) False
    have bad': "\<exists>pk\<in>set xs. \<exists>p. port_at h pk = Some p \<and> self_bound h a old pk p"
      by auto
    from Cons.IH[OF named' bad' i1 keep1] b1 show ?thesis by simp
  qed
qed

lemma rn_nodes_raise:
  assumes new: "node_id (h a) = new" "new \<noteq> old"
    and named: "\<forall>s\<in>set ss. \<forall>pk\<in>set (node_ports h s). \<forall>p. port_at h pk = Some p \<longrightarrow> named_ref p"
    and bad: "\<exists>s\<in>set ss. \<exists>pk\<in>set (node_ports h s). \<exists>p. port_at h pk = Some p \<and> self_bound h a old pk p"
    and inv: "rn_inv h a old new g"
    and keep: "\<forall>pk p. port_at h pk = Some p \<and> self_bound h a old pk p \<longrightarrow> port_at g pk = Some p"
  shows "for_each (Node_update_sources_node_id a old) ss g = Inl SelfBinding"
  using named bad inv keep
proof (induction ss arbitrary: g)
  case Nil
  then show ?case by simp
next
  case (Cons x xs)
  from Cons.prems(3) have sh: "same_shape h g" by (simp add: rn_inv_def)
  have np: "node_ports g x = node_ports h x" using sh by (rule same_shape_node_ports)
  from Cons.prems(1)
  have namedx: "\<forall>pk\<in>set (node_ports h x). \<forall>p. port_at h pk = Some p \<longrightarrow> named_ref p"
    by simp
  show ?case
  proof (cases "\<exists>pk\<in>set (node_ports h x). \<exists>p. port_at h pk = Some p \<and> self_bound h a old pk p")
    case True
    from rn_raise[OF new namedx True Cons.prems(3) Cons.prems(4)]
    have "Node_update_sources_node_id a old g x = Inl SelfBinding"
      by (simp add: Node_update_sources_node_id_def np)
    then show ?thesis by simp
  next
    case False
    with namedx
    have prex: "\<forall>pk\<in>set (node_ports h x). \<forall>p. port_at h pk = Some p \<longrightarrow> renamable h a old pk p"
      by (auto simp: renamable_iff)
    from rn_ports[OF new prex Cons.prems(3)] obtain g1 where
      r1: "for_each (update_source_node_id a old) (node_ports h x) g = Inr g1"
      and i1: "rn_inv h a old new g1"
      and u1: "\<forall>pk. pk \<notin> set (node_ports h x) \<longrightarrow> port_at g1 pk = port_at g pk"
      by blast
    have b1: "Node_update_sources_node_id a old g x = Inr g1"
      using r1 np by (simp add: Node_update_sources_node_id_def)
    have keep1: "\<forall>pk p. port_at h pk = Some p \<and> self_bound h a old pk p \<longrightarrow> port_at g1 pk = Some p"
    proof (intro allI impI)
      fix pk p assume a: "port_at h pk = Some p \<and> self_bound h a old pk p"
      with False have "pk \<notin> set (node_ports h x)" by auto
      then have "port_at g1 pk = port_at g pk" using u1 by simp
      with a Cons.prems(4) show "port_at g1 pk = Some p" by simp
    qed
    from Cons.prems(1)
    have named': "\<forall>s\<in>set xs. \<forall>pk\<in>set (node_ports h s). \<forall>p. port_at h pk = Some p \<longrightarrow> named_ref p"
      by simp
    from Cons.prems(2) False
    have bad': "\<exists>s\<in>set xs. \<exists>pk\<in>set (node_ports h s). \<exists>p. port_at h pk = Some p \<and> self_bound h a old pk p"
      by auto
    from Cons.IH[OF named' bad' i1 keep1] b1 show ?thesis by simp
  qed
qed

lemma set_id_raises:
  assumes ne: "new_id \<noteq> []" and neq: "new_id \<noteq> node_id (h a)"
    and named: "\<forall>pk\<in>set (tree_ports h (root_node h a)). \<forall>p. port_at h pk = Some p \<longrightarrow> named_ref p"
    and bad: "\<exists>pk\<in>set (tree_ports h (root_node h a)). \<exists>p.
                port_at h pk = Some p \<and> self_bound h a (node_id (h a)) pk p"
  shows "set_id h a new_id = Inl SelfBinding"
proof -
  define old where "old = node_id (h a)"
  define h1 where "h1 = h(a := (h a)\<lparr>node_id := new_id\<rparr>)"
  define root where "root = root_node h a"
  note f = id_upd_facts[of h a new_id, folded h1_def]
  have neq': "new_id \<noteq> old" using neq by (simp add: old_def)
  have sb1: "self_bound h1 a old pk p = self_bound h a old pk p" for pk p
    unfolding self_bound_def f ..
  have rb1: "renamable h1 a old pk p = renamable h a old pk p" for pk p
    unfolding renamable_def f ..
  have sid: "set_id h a new_id = update_sources_node_id h1 root a old"
    using ne neq by (simp add: set_id_def old_def h1_def[symmetric] Let_def f root_def
        del: root_node.simps)
  have inv1: "rn_inv h1 a old new_id h1"
    by (simp add: rn_inv_def same_shape_refl)
  have keep1: "\<forall>pk p. port_at h1 pk = Some p \<and> self_bound h1 a old pk p \<longrightarrow> port_at h1 pk = Some p"
    by simp
  have named1: "\<forall>pk\<in>set (tree_ports h1 root). \<forall>p. port_at h1 pk = Some p \<longrightarrow> named_ref p"
    using named by (simp add: f root_def)
  have bad1: "\<exists>pk\<in>set (tree_ports h1 root). \<exists>p. port_at h1 pk = Some p \<and> self_bound h1 a old pk p"
    using bad unfolding old_def[symmetric] by (simp add: f root_def sb1)
  have namedr: "\<forall>pk\<in>set (node_ports h1 root). \<forall>p. port_at h1 pk = Some p \<longrightarrow> named_ref p"
    using named1 by (auto simp: tree_ports_def)
  show ?thesis
  proof (cases "\<exists>pk\<in>set (node_ports h1 root). \<exists>p. port_at h1 pk = Some p \<and> self_bound h1 a old pk p")
    case True
    from rn_raise[OF f(10) neq' namedr True inv1 keep1]
    have "Node_update_sources_node_id a old h1 root = Inl SelfBinding"
      by (simp add: Node_update_sources_node_id_def)
    then show ?thesis by (simp add: sid update_sources_node_id_def)
  next
    case False
    with namedr
    have prex: "\<forall>pk\<in>set (node_ports h1 root). \<forall>p. port_at h1 pk = Some p \<longrightarrow> renamable h1 a old pk p"
      by (auto simp: renamable_iff)
    from rn_ports[OF f(10) neq' prex inv1] obtain g1 where
      r1: "for_each (update_source_node_id a old) (node_ports h1 root) h1 = Inr g1"
      and i1: "rn_inv h1 a old new_id g1"
      and u1: "\<forall>pk. pk \<notin> set (node_ports h1 root) \<longrightarrow> port_at g1 pk = port_at h1 pk"
      by blast
    have n1: "Node_update_sources_node_id a old h1 root = Inr g1"
      using r1 by (simp add: Node_update_sources_node_id_def)
    have wf: "kind (h1 root) = Workflow"
    proof (rule ccontr)
      assume "kind (h1 root) \<noteq> Workflow"
      then have "tree_ports h1 root = node_ports h1 root" by (simp add: tree_ports_def)
      with bad1 False show False by simp
    qed
    define h2 where "h2 = (if old \<in> dom (steps_dict (g1 root))
                       then g1(root := (g1 root)\<lparr>steps_dict :=
                              ((steps_dict (g1 root))(old := None))
                                (node_id (g1 a) \<mapsto> a)\<rparr>)
                       else g1)"
    have sh1: "same_shape h1 g1" using i1 by (simp add: rn_inv_def)
    have p2: "port_at h2 = port_at g1"
      by (rule ext) (simp add: h2_def port_at_def namespace_def)
    have sh12: "same_shape g1 h2"
      by (simp add: h2_def same_shape_def)
    have sh2: "same_shape h1 h2" using sh1 sh12 by (rule same_shape_trans)
    have inv2: "rn_inv h1 a old new_id h2"
      using i1 sh2 by (simp add: rn_inv_def p2)
    have st2: "steps (h2 root) = steps (h1 root)"
      using sh2 by (simp add: same_shape_def)
    have keep2: "\<forall>pk p. port_at h1 pk = Some p \<and> self_bound h1 a old pk p \<longrightarrow> port_at h2 pk = Some p"
    proof (intro allI impI)
      fix pk p assume a: "port_at h1 pk = Some p \<and> self_bound h1 a old pk p"
      with False have "pk \<notin> set (node_ports h1 root)" by auto
      then have "port_at g1 pk = port_at h1 pk" using u1 by simp
      with a show "port_at h2 pk = Some p" by (simp add: p2)
    qed
    have nameds: "\<forall>s\<in>set (steps (h1 root)). \<forall>pk\<in>set (node_ports h1 s). \<forall>p.
        port_at h1 pk = Some p \<longrightarrow> named_ref p"
      using named1 wf by (auto simp: tree_ports_def)
    have bads: "\<exists>s\<in>set (steps (h1 root)). \<exists>pk\<in>set (node_ports h1 s). \<exists>p.
        port_at h1 pk = Some p \<and> self_bound h1 a old pk p"
      using bad1 False wf by (auto simp: tree_ports_def)
    from rn_nodes_raise[OF f(10) neq' nameds bads inv2 keep2]
    have "for_each (Node_update_sources_node_id a old) (steps (h2 root)) h2 = Inl SelfBinding"
      by (simp add: st2)
    then show ?thesis
      using n1 wf by (simp add: sid update_sources_node_id_def h2_def[symmetric] Let_def)
  qed
qed


text \<open>
  C3, amended. \<open>set_id\<close> rejects an empty id and does nothing when the id is the current
  one. Otherwise, in a tree in which every reference is absent or a \<open>SourceRef\<close> (as the
  \<open>source\<close> setter writes it): when some port has a reference that names the old id and a
  port name under which \<open>find_port\<close> finds that very port on the renamed node, \<open>set_id\<close>
  raises, as the \<open>source\<close> setter refuses to bind a port to itself; when no port has,
  \<open>set_id\<close> returns, the node has the new id, and every port of the root's tree whose
  reference names the old id is bound to the port that \<open>find_port\<close> finds on the renamed
  node under the reference's port name, with the reference \<open>(new_id, port name)\<close>; all
  other ports are as before. In particular a port whose source is what \<open>find_port\<close> finds
  under the source's name keeps its source. When the root is a workflow whose step lookup
  has the old id, the lookup has the renamed node under the new id and nothing under the
  old one.
\<close>

theorem set_id_cascades:
  "set_id h a [] = Inl IdMissing \<and>
   (node_id (h a) \<noteq> [] \<longrightarrow> set_id h a (node_id (h a)) = Inr h) \<and>
   (new_id \<noteq> [] \<and> new_id \<noteq> node_id (h a) \<and>
    (\<forall>pk\<in>set (tree_ports h (root_node h a)). \<forall>p. port_at h pk = Some p \<longrightarrow> named_ref p) \<and>
    (\<exists>pk\<in>set (tree_ports h (root_node h a)). \<exists>p.
         port_at h pk = Some p \<and> self_bound h a (node_id (h a)) pk p) \<longrightarrow>
    set_id h a new_id = Inl SelfBinding) \<and>
   (new_id \<noteq> [] \<and> new_id \<noteq> node_id (h a) \<and>
    (\<forall>pk\<in>set (tree_ports h (root_node h a)). \<forall>p. port_at h pk = Some p \<longrightarrow>
         named_ref p \<and> \<not> self_bound h a (node_id (h a)) pk p) \<longrightarrow>
    (\<exists>h'. set_id h a new_id = Inr h' \<and> node_id (h' a) = new_id \<and>
       (\<forall>pk\<in>set (tree_ports h (root_node h a)).
          port_at h' pk = map_option (renamed_port h a (node_id (h a)) new_id) (port_at h pk)) \<and>
       (\<forall>pk\<in>set (tree_ports h (root_node h a)). \<forall>p q.
          port_at h pk = Some p \<and> source p = Some q \<and>
          source_ref p = Some (SourceRef (Some (node_id (h a))) (Some (port_name q))) \<and>
          find_port h a (Some (port_name q)) = Some q \<longrightarrow>
          port_at h' pk = Some (p\<lparr>source_ref := Some (SourceRef (Some new_id) (Some (port_name q))),
                                   port_value := UNDEFINED\<rparr>)) \<and>
       (kind (h (root_node h a)) = Workflow \<and>
        steps_dict (h (root_node h a)) (node_id (h a)) \<noteq> None \<longrightarrow>
          steps_dict (h' (root_node h a))
            = ((steps_dict (h (root_node h a)))(node_id (h a) := None))(new_id \<mapsto> a) \<and>
          find_node h' (root_node h a) new_id = Some a)))"
proof (intro conjI impI)
  show "set_id h a [] = Inl IdMissing" by (rule set_id_empty)
  show "set_id h a (node_id (h a)) = Inr h" if "node_id (h a) \<noteq> []"
    using that by (rule set_id_same)
next
  assume "new_id \<noteq> [] \<and> new_id \<noteq> node_id (h a) \<and>
    (\<forall>pk\<in>set (tree_ports h (root_node h a)). \<forall>p. port_at h pk = Some p \<longrightarrow> named_ref p) \<and>
    (\<exists>pk\<in>set (tree_ports h (root_node h a)). \<exists>p.
         port_at h pk = Some p \<and> self_bound h a (node_id (h a)) pk p)"
  then show "set_id h a new_id = Inl SelfBinding"
    using set_id_raises[of new_id h a] by blast
next
  let ?old = "node_id (h a)" and ?root = "root_node h a"
  assume asm0: "new_id \<noteq> [] \<and> new_id \<noteq> ?old \<and>
    (\<forall>pk\<in>set (tree_ports h ?root). \<forall>p. port_at h pk = Some p \<longrightarrow>
         named_ref p \<and> \<not> self_bound h a ?old pk p)"
  then have asm: "new_id \<noteq> [] \<and> new_id \<noteq> ?old \<and>
    (\<forall>pk\<in>set (tree_ports h ?root). \<forall>p. port_at h pk = Some p \<longrightarrow> renamable h a ?old pk p)"
    by (simp add: renamable_iff)
  from set_id_renames[of h a new_id] asm obtain h' where
    r: "set_id h a new_id = Inr h'" and i: "node_id (h' a) = new_id"
    and p: "\<forall>pk\<in>set (tree_ports h ?root).
          port_at h' pk = map_option (renamed_port h a ?old new_id) (port_at h pk)"
    and d: "kind (h ?root) = Workflow \<and> steps_dict (h ?root) ?old \<noteq> None \<longrightarrow>
          steps_dict (h' ?root) = ((steps_dict (h ?root))(?old := None))(new_id \<mapsto> a) \<and>
          find_node h' ?root new_id = Some a"
    by blast
  have same: "\<forall>pk\<in>set (tree_ports h ?root). \<forall>p q.
          port_at h pk = Some p \<and> source p = Some q \<and>
          source_ref p = Some (SourceRef (Some ?old) (Some (port_name q))) \<and>
          find_port h a (Some (port_name q)) = Some q \<longrightarrow>
          port_at h' pk = Some (p\<lparr>source_ref := Some (SourceRef (Some new_id) (Some (port_name q))),
                                   port_value := UNDEFINED\<rparr>)"
  proof (intro ballI allI impI)
    fix pk p q
    assume pk: "pk \<in> set (tree_ports h ?root)"
      and a: "port_at h pk = Some p \<and> source p = Some q \<and>
          source_ref p = Some (SourceRef (Some ?old) (Some (port_name q))) \<and>
          find_port h a (Some (port_name q)) = Some q"
    from p pk have "port_at h' pk = map_option (renamed_port h a ?old new_id) (port_at h pk)"
      by blast
    with a show "port_at h' pk
        = Some (p\<lparr>source_ref := Some (SourceRef (Some new_id) (Some (port_name q))),
                  port_value := UNDEFINED\<rparr>)"
      by (simp add: renamed_port_def)
  qed
  show "\<exists>h'. set_id h a new_id = Inr h' \<and> node_id (h' a) = new_id \<and>
       (\<forall>pk\<in>set (tree_ports h ?root).
          port_at h' pk = map_option (renamed_port h a ?old new_id) (port_at h pk)) \<and>
       (\<forall>pk\<in>set (tree_ports h ?root). \<forall>p q.
          port_at h pk = Some p \<and> source p = Some q \<and>
          source_ref p = Some (SourceRef (Some ?old) (Some (port_name q))) \<and>
          find_port h a (Some (port_name q)) = Some q \<longrightarrow>
          port_at h' pk = Some (p\<lparr>source_ref := Some (SourceRef (Some new_id) (Some (port_name q))),
                                   port_value := UNDEFINED\<rparr>)) \<and>
       (kind (h ?root) = Workflow \<and> steps_dict (h ?root) ?old \<noteq> None \<longrightarrow>
          steps_dict (h' ?root) = ((steps_dict (h ?root))(?old := None))(new_id \<mapsto> a) \<and>
          find_node h' ?root new_id = Some a)"
    using r i p same d by blast
qed

lemmas wf_bound_defs = wf_bound_def blank_node_def bound_def new_NodePort_def no_meta_def

lemmas set_id_defs = source_after_set_id_def set_id_def update_sources_node_id_def
  Node_update_sources_node_id_def update_source_node_id_def node_ports_def


text \<open>
  C3, as stated, fails. In \<open>wf_bound\<close> the input \<open>v\<close> of step \<open>b\<close> is bound to the
  input \<open>x\<close> of step \<open>a\<close>; after \<open>a\<close> is renamed it is bound to the output \<open>x\<close> of
  that step, since \<open>find_port\<close> searches the outputs first. In \<open>wf_unresolved\<close> the
  references are unresolved, and renaming step \<open>a\<close> raises \<open>AttributeError\<close>: a
  reference written by \<open>from_json\<close> is a plain pair, without the attribute \<open>node_id\<close>.
\<close>

theorem set_id_counterexample:
  "port_source wf_bound (PortKey 2 False ''v'') = Some (PortKey 1 False ''x'') \<and>
   map_option source_ref (port_at wf_bound (PortKey 2 False ''v''))
     = Some (Some (SourceRef (Some ''a'') (Some ''x''))) \<and>
   node_id (wf_bound 1) = ''a'' \<and>
   source_after_set_id wf_bound 1 ''c'' (PortKey 2 False ''v'') = Inr (Some (PortKey 1 True ''x'')) \<and>
   map_option source_ref (port_at wf_unresolved (PortKey 2 False ''z''))
     = Some (Some (PlainPair (Some ''a'') None)) \<and>
   node_id (wf_unresolved 1) = ''a'' \<and>
   set_id wf_unresolved 1 ''c'' = Inl AttributeError"
  by (simp add: wf_bound_defs wf_unresolved_defs set_id_defs resolve_defs root_node_eq
      del: root_node.simps)


theorem set_id_cascades_witness:
  "node_id (wf_bound 1) = ''a'' \<and> root_node wf_bound 1 = 0 \<and>
   port_at wf_bound (PortKey 2 False ''u'') = Some (bound 1 True ''return'' ''a'') \<and>
   steps_dict (wf_bound 0) ''a'' = Some 1 \<and>
   (\<exists>h'. set_id wf_bound 1 ''c'' = Inr h' \<and> node_id (h' 1) = ''c'' \<and>
      port_at h' (PortKey 2 False ''u'') = Some (bound 1 True ''return'' ''c'') \<and>
      port_at h' (PortKey 0 True ''y'') = Some (bound 2 True ''return'' ''b'') \<and>
      steps_dict (h' 0) ''c'' = Some 1 \<and> steps_dict (h' 0) ''a'' = None \<and>
      find_node h' 0 ''c'' = Some 1) \<and>
   node_id (wf_pass_through 1) = ''a'' \<and>
   port_at wf_pass_through (PortKey 1 True ''x'') = Some (bound 1 False ''x'' ''a'') \<and>
   find_port wf_pass_through 1 (Some ''x'') = Some (PortKey 1 True ''x'') \<and>
   set_id wf_pass_through 1 ''c'' = Inl SelfBinding"
proof -
  have root: "root_node wf_bound 1 = 0"
    by (simp add: wf_bound_defs parent_node_def root_node_eq del: root_node.simps)
  have id: "node_id (wf_bound 1) = ''a''" by (simp add: wf_bound_defs)
  have tp: "tree_ports wf_bound 0 =
      [PortKey 0 True ''y'', PortKey 0 False ''x'',
       PortKey 1 True ''x'', PortKey 1 True ''return'', PortKey 1 False ''x'',
       PortKey 2 True ''return'', PortKey 2 False ''u'', PortKey 2 False ''v'']"
    by (simp add: tree_ports_def node_ports_def wf_bound_defs)
  have pre: "\<forall>pk\<in>set (tree_ports wf_bound (root_node wf_bound 1)). \<forall>p.
      port_at wf_bound pk = Some p \<longrightarrow>
        named_ref p \<and> \<not> self_bound wf_bound 1 (node_id (wf_bound 1)) pk p"
    unfolding root tp id
    by (simp add: port_at_def namespace_def wf_bound_defs named_ref_def self_bound_def
        find_port_def)
  have u: "port_at wf_bound (PortKey 2 False ''u'') = Some (bound 1 True ''return'' ''a'')"
    and y: "port_at wf_bound (PortKey 0 True ''y'') = Some (bound 2 True ''return'' ''b'')"
    by (simp_all add: port_at_def namespace_def wf_bound_defs)
  have sd: "steps_dict (wf_bound 0) ''a'' = Some 1" and k: "kind (wf_bound 0) = Workflow"
    by (simp_all add: wf_bound_defs)
  note ok = set_id_cascades[of wf_bound 1 "''c''", THEN conjunct2, THEN conjunct2, THEN conjunct2]
  have "''c'' \<noteq> [] \<and> ''c'' \<noteq> node_id (wf_bound 1) \<and>
    (\<forall>pk\<in>set (tree_ports wf_bound (root_node wf_bound 1)). \<forall>p. port_at wf_bound pk = Some p \<longrightarrow>
         named_ref p \<and> \<not> self_bound wf_bound 1 (node_id (wf_bound 1)) pk p)"
    using pre id by simp
  with ok obtain h' where
    r: "set_id wf_bound 1 ''c'' = Inr h'" and i: "node_id (h' 1) = ''c''"
    and p: "\<forall>pk\<in>set (tree_ports wf_bound 0).
          port_at h' pk = map_option (renamed_port wf_bound 1 ''a'' ''c'') (port_at wf_bound pk)"
    and d: "kind (wf_bound 0) = Workflow \<and> steps_dict (wf_bound 0) ''a'' \<noteq> None \<longrightarrow>
          steps_dict (h' 0) = ((steps_dict (wf_bound 0))(''a'' := None))(''c'' \<mapsto> 1) \<and>
          find_node h' 0 ''c'' = Some 1"
    unfolding root id by blast
  from p have "port_at h' (PortKey 2 False ''u'')
      = map_option (renamed_port wf_bound 1 ''a'' ''c'') (port_at wf_bound (PortKey 2 False ''u''))"
    and "port_at h' (PortKey 0 True ''y'')
      = map_option (renamed_port wf_bound 1 ''a'' ''c'') (port_at wf_bound (PortKey 0 True ''y''))"
    unfolding tp by simp_all
  then have pu: "port_at h' (PortKey 2 False ''u'') = Some (bound 1 True ''return'' ''c'')"
    and py: "port_at h' (PortKey 0 True ''y'') = Some (bound 2 True ''return'' ''b'')"
    unfolding u y
    by (simp_all add: renamed_port_def bound_def find_port_def wf_bound_def blank_node_def)
  from d k sd have dd: "steps_dict (h' 0) = ((steps_dict (wf_bound 0))(''a'' := None))(''c'' \<mapsto> 1)"
    and fn: "find_node h' 0 ''c'' = Some 1"
    by simp_all
  from dd have d1: "steps_dict (h' 0) ''c'' = Some 1" and d2: "steps_dict (h' 0) ''a'' = None"
    by simp_all
  have first: "\<exists>h'. set_id wf_bound 1 ''c'' = Inr h' \<and> node_id (h' 1) = ''c'' \<and>
      port_at h' (PortKey 2 False ''u'') = Some (bound 1 True ''return'' ''c'') \<and>
      port_at h' (PortKey 0 True ''y'') = Some (bound 2 True ''return'' ''b'') \<and>
      steps_dict (h' 0) ''c'' = Some 1 \<and> steps_dict (h' 0) ''a'' = None \<and>
      find_node h' 0 ''c'' = Some 1"
    using r i pu py d1 d2 fn by blast
  have rootp: "root_node wf_pass_through 1 = 0"
    by (simp add: wf_pass_through_def wf_bound_defs parent_node_def root_node_eq
        del: root_node.simps)
  have idp: "node_id (wf_pass_through 1) = ''a''"
    by (simp add: wf_pass_through_def wf_bound_defs)
  have tpp: "tree_ports wf_pass_through 0 = [PortKey 1 True ''x'', PortKey 1 False ''x'']"
    by (simp add: tree_ports_def node_ports_def wf_pass_through_def wf_bound_defs)
  have px: "port_at wf_pass_through (PortKey 1 True ''x'') = Some (bound 1 False ''x'' ''a'')"
    and pi: "port_at wf_pass_through (PortKey 1 False ''x'') = Some new_NodePort"
    by (simp_all add: port_at_def namespace_def wf_pass_through_def blank_node_def)
  have fp: "find_port wf_pass_through 1 (Some ''x'') = Some (PortKey 1 True ''x'')"
    by (simp add: find_port_def wf_pass_through_def blank_node_def)
  have named: "\<forall>pk\<in>set (tree_ports wf_pass_through (root_node wf_pass_through 1)). \<forall>p.
      port_at wf_pass_through pk = Some p \<longrightarrow> named_ref p"
    unfolding rootp tpp
    using px pi by (simp add: named_ref_def bound_def new_NodePort_def)
  have bad: "\<exists>pk\<in>set (tree_ports wf_pass_through (root_node wf_pass_through 1)). \<exists>p.
      port_at wf_pass_through pk = Some p \<and>
      self_bound wf_pass_through 1 (node_id (wf_pass_through 1)) pk p"
    unfolding rootp tpp idp
    using px fp by (simp add: self_bound_def bound_def)
  note raise = set_id_cascades[of wf_pass_through 1 "''c''",
      THEN conjunct2, THEN conjunct2, THEN conjunct1]
  have "''c'' \<noteq> [] \<and> ''c'' \<noteq> node_id (wf_pass_through 1) \<and>
    (\<forall>pk\<in>set (tree_ports wf_pass_through (root_node wf_pass_through 1)). \<forall>p.
        port_at wf_pass_through pk = Some p \<longrightarrow> named_ref p) \<and>
    (\<exists>pk\<in>set (tree_ports wf_pass_through (root_node wf_pass_through 1)). \<exists>p.
        port_at wf_pass_through pk = Some p \<and>
        self_bound wf_pass_through 1 (node_id (wf_pass_through 1)) pk p)"
    using named bad idp by simp
  with raise have second: "set_id wf_pass_through 1 ''c'' = Inl SelfBinding"
    by (rule mp)
  show ?thesis
    using id root u sd first idp px fp second by simp
qed

section \<open>Properties of replacing a step\<close>

declare root_node.simps [simp del] find_port_in_scope.simps [simp del]



































section \<open>Properties of the execution order\<close>































section \<open>Properties of invoking an operation step\<close>

lemma py_is_UNDEFINED: "py_is v UNDEFINED \<longleftrightarrow> v = UNDEFINED"
  by (cases v) auto

text \<open>
  C7. With a cache in the context and \<open>can_cache\<close> true: when the cache has a value other
  than \<open>UNDEFINED\<close> under the step's id, that value is the return value, the operation is not
  called and the cache is as before; otherwise the operation is called once and its result
  is assigned in the cache under the step's id. With \<open>can_cache\<close> false, or no cache in the
  context, the operation is called and the context's cache is handed back untouched. The
  return value ends in the step's \<open>return\<close> output.
\<close>

theorem op_step_value_cache:
  "(can_cache (meta n) \<and> ctx_value_cache ctx = Some c \<and>
      items c (node_id n) = Some v \<and> v \<noteq> UNDEFINED \<longrightarrow>
      cached_or_called op n ctx ivs calls = Inr (v, Some c, calls)) \<and>
   (can_cache (meta n) \<and> ctx_value_cache ctx = Some c \<and>
      (items c (node_id n) = None \<or> items c (node_id n) = Some UNDEFINED) \<and>
      op ivs = Inr rv \<longrightarrow>
      cached_or_called op n ctx ivs calls
        = Inr (rv, Some (setitem c (node_id n) rv), calls @ [ivs]) \<and>
      items (setitem c (node_id n) rv) (node_id n) = Some rv) \<and>
   ((\<not> can_cache (meta n) \<or> ctx_value_cache ctx = None) \<and> op ivs = Inr rv \<longrightarrow>
      cached_or_called op n ctx ivs calls = Inr (rv, ctx_value_cache ctx, calls @ [ivs])) \<and>
   (input_values_loop limit h (map (\<lambda>(k, p). PortKey a False k) (inputs (h a))) = Inr vs \<and>
      cached_or_called op (h a) ctx (scv vs) calls = Inr (rv, cache, calls') \<and>
      \<not> has_named_outputs (meta (h a)) \<and> ''return'' \<in> set (map fst (outputs (h a))) \<longrightarrow>
      invoke_impl limit op scv a ctx h calls
        = Inr \<lparr>run_heap = set_value h (PortKey a True ''return'') rv,
               run_cache = cache, op_calls = calls'\<rparr> \<and>
      map_option port_value (port_at (set_value h (PortKey a True ''return'') rv)
                               (PortKey a True ''return'')) = Some rv)"
proof (intro conjI impI)
  assume "can_cache (meta n) \<and> ctx_value_cache ctx = Some c \<and>
      items c (node_id n) = Some v \<and> v \<noteq> UNDEFINED"
  then show "cached_or_called op n ctx ivs calls = Inr (v, Some c, calls)"
    by (simp add: cached_or_called_def get_value_cache_def py_is_UNDEFINED)
next
  assume a: "can_cache (meta n) \<and> ctx_value_cache ctx = Some c \<and>
      (items c (node_id n) = None \<or> items c (node_id n) = Some UNDEFINED) \<and> op ivs = Inr rv"
  then show "cached_or_called op n ctx ivs calls
        = Inr (rv, Some (setitem c (node_id n) rv), calls @ [ivs])"
    by (auto simp: cached_or_called_def get_value_cache_def)
  show "items (setitem c (node_id n) rv) (node_id n) = Some rv"
    by (auto simp: vc_defs Let_def split: option.splits prod.splits)
next
  assume "(\<not> can_cache (meta n) \<or> ctx_value_cache ctx = None) \<and> op ivs = Inr rv"
  then show "cached_or_called op n ctx ivs calls = Inr (rv, ctx_value_cache ctx, calls @ [ivs])"
    by (auto simp: cached_or_called_def get_value_cache_def)
next
  assume a: "input_values_loop limit h (map (\<lambda>(k, p). PortKey a False k) (inputs (h a))) = Inr vs \<and>
      cached_or_called op (h a) ctx (scv vs) calls = Inr (rv, cache, calls') \<and>
      \<not> has_named_outputs (meta (h a)) \<and> ''return'' \<in> set (map fst (outputs (h a)))"
  then show "invoke_impl limit op scv a ctx h calls
        = Inr \<lparr>run_heap = set_value h (PortKey a True ''return'') rv,
               run_cache = cache, op_calls = calls'\<rparr>"
    by (simp add: invoke_impl_def set_outputs_def)
  from a obtain p where "map_of (outputs (h a)) ''return'' = Some p"
    by (cases "map_of (outputs (h a)) ''return''") (auto simp: map_of_eq_None_iff)
  then have "port_at h (PortKey a True ''return'') = Some p"
    by (simp add: port_at_def namespace_def)
  then show "map_option port_value (port_at (set_value h (PortKey a True ''return'') rv)
                               (PortKey a True ''return'')) = Some rv"
    by (simp add: set_value_def port_at_upd_port)
qed



theorem op_step_value_cache_witness:
  "cached_or_called double_op (op_step 1) \<lparr>ctx_value_cache = Some new_ValueCache\<rparr>
      [(''x'', PyInt 3)] []
     = Inr (PyInt 6, Some (setitem new_ValueCache ''double'' (PyInt 6)), [[(''x'', PyInt 3)]]) \<and>
   cached_or_called double_op (op_step 1)
      \<lparr>ctx_value_cache = Some (setitem new_ValueCache ''double'' (PyInt 6))\<rparr>
      [(''x'', PyInt 3)] [[(''x'', PyInt 3)]]
     = Inr (PyInt 6, Some (setitem new_ValueCache ''double'' (PyInt 6)), [[(''x'', PyInt 3)]]) \<and>
   invoke_impl 5 double_op id 1
      \<lparr>ctx_value_cache = Some (setitem new_ValueCache ''double'' (PyInt 6))\<rparr> op_step
      [[(''x'', PyInt 3)]]
     = Inr \<lparr>run_heap = set_value op_step (PortKey 1 True ''return'') (PyInt 6),
            run_cache = Some (setitem new_ValueCache ''double'' (PyInt 6)),
            op_calls = [[(''x'', PyInt 3)]]\<rparr>"
proof -
  let ?c1 = "setitem new_ValueCache ''double'' (PyInt 6)"
  have cc: "can_cache (meta (op_step 1))" and nid: "node_id (op_step 1) = ''double''"
    and nn: "\<not> has_named_outputs (meta (op_step 1))"
    and ro: "''return'' \<in> set (map fst (outputs (op_step 1)))"
    by (simp_all add: op_step_def blank_node_def no_meta_def)
  have op: "double_op [(''x'', PyInt 3)] = Inr (PyInt 6)" by (simp add: double_op_def)
  have miss: "items new_ValueCache (node_id (op_step 1)) = None"
    by (simp add: new_ValueCache_def)
  have hit: "items ?c1 (node_id (op_step 1)) = Some (PyInt 6)"
    unfolding nid by (simp add: vc_defs new_ValueCache_def Let_def)
  have iv: "input_values_loop 5 op_step
      (map (\<lambda>(k, p). PortKey 1 False k) (inputs (op_step 1))) = Inr [(''x'', PyInt 3)]"
    by (simp add: op_step_def blank_node_def new_NodePort_def port_at_def namespace_def
        eval_nat_numeral)
  note t1 = op_step_value_cache[where n = "op_step 1"
      and ctx = "\<lparr>ctx_value_cache = Some new_ValueCache\<rparr>" and c = new_ValueCache
      and op = double_op and ivs = "[(''x'', PyInt 3)]" and calls = "[]" and rv = "PyInt 6"]
  have first: "cached_or_called double_op (op_step 1)
      \<lparr>ctx_value_cache = Some new_ValueCache\<rparr> [(''x'', PyInt 3)] []
     = Inr (PyInt 6, Some ?c1, [[(''x'', PyInt 3)]])"
    using t1[THEN conjunct2, THEN conjunct1] cc miss op unfolding nid by simp
  note t2 = op_step_value_cache[where n = "op_step 1"
      and ctx = "\<lparr>ctx_value_cache = Some ?c1\<rparr>" and c = ?c1 and v = "PyInt 6"
      and op = double_op and ivs = "[(''x'', PyInt 3)]" and calls = "[[(''x'', PyInt 3)]]"
      and limit = 5 and h = op_step and a = 1 and vs = "[(''x'', PyInt 3)]" and scv = id
      and rv = "PyInt 6" and cache = "Some ?c1" and calls' = "[[(''x'', PyInt 3)]]"]
  have second: "cached_or_called double_op (op_step 1) \<lparr>ctx_value_cache = Some ?c1\<rparr>
          [(''x'', PyInt 3)] [[(''x'', PyInt 3)]]
        = Inr (PyInt 6, Some ?c1, [[(''x'', PyInt 3)]])"
    using t2[THEN conjunct1] cc hit by simp
  have third: "invoke_impl 5 double_op id 1 \<lparr>ctx_value_cache = Some ?c1\<rparr> op_step
        [[(''x'', PyInt 3)]]
        = Inr \<lparr>run_heap = set_value op_step (PortKey 1 True ''return'') (PyInt 6),
               run_cache = Some ?c1, op_calls = [[(''x'', PyInt 3)]]\<rparr>"
    using t2[THEN conjunct2, THEN conjunct2, THEN conjunct2] iv second nn ro by simp
  show ?thesis using first second third by (intro conjI)
qed

section \<open>Properties of decoding a step from JSON\<close>






lemma ns_update_absent:
  "name \<notin> set (map fst ns) \<Longrightarrow> ns_update name f ns = ns"
  by (induction ns) auto














end
